theory Spec2Isabelle
  imports
    Main
    "HOL-Library.AList"
    "HOL-Library.Multiset"
    "HOL-Library.Char_ord"
    "HOL-Library.List_Lexorder"
    "HOL-Library.Product_Lexorder"
begin

section \<open>Values, errors and paths\<close>

text \<open>
  The session state of \<^verbatim>\<open>lib/state_manager.py\<close> is a Python dictionary that is
  written to disk with \<^verbatim>\<open>json.dump\<close>. A Python \<^verbatim>\<open>dict\<close> keeps its keys in insertion
  order and an assignment to an existing key keeps the key's position: this is an
  association list with \<^const>\<open>AList.update\<close> for assignment and \<^const>\<open>map_of\<close> for
  lookup. A Python \<^verbatim>\<open>str\<close> is a \<^typ>\<open>string\<close>, one list element per character, so
  that slicing \<^verbatim>\<open>s[:n]\<close> is \<^term>\<open>take n s\<close>.
\<close>

datatype json =
    JNull
  | JBool bool
  | JInt int
  | JStr string
  | JArr "json list"
  | JObj "(string \<times> json) list"

type_synonym 'v dict = "(string \<times> 'v) list"

datatype error =
    KeyError string
  | ValueError string
  | IndexError
  | TypeError
  | AttributeError
  | FileNotFoundError "string list"

text \<open>
  A \<^verbatim>\<open>pathlib.Path\<close> is the list of its components. \<^verbatim>\<open>Path.suffix\<close> and
  \<^verbatim>\<open>Path.with_suffix\<close> follow CPython's \<^verbatim>\<open>pathlib\<close>: the suffix of the final
  component starts at its last dot, unless that dot is the first or the last character.
\<close>

type_synonym path = "string list"

definition path_name :: "path \<Rightarrow> string" where
  "path_name p = (if p = [] then [] else last p)"

definition path_parent :: "path \<Rightarrow> path" where
  "path_parent p = butlast p"

definition rfind :: "string \<Rightarrow> char \<Rightarrow> int" where
  "rfind s c =
     (if c \<in> set s
      then int (length s) - 1 - int (length (takeWhile (\<lambda>x. x \<noteq> c) (rev s)))
      else - 1)"

definition path_suffix :: "path \<Rightarrow> string" where
  "path_suffix p =
     (let nm = path_name p; i = rfind nm (CHR ''.'')
      in if 0 < i \<and> i < int (length nm) - 1 then drop (nat i) nm else [])"

definition with_suffix :: "path \<Rightarrow> string \<Rightarrow> error + path" where
  "with_suffix p sfx =
     (if CHR ''/'' \<in> set sfx then Inl (ValueError ''Invalid suffix'')
      else if (sfx \<noteq> [] \<and> hd sfx \<noteq> CHR ''.'') \<or> sfx = ''.''
        then Inl (ValueError ''Invalid suffix'')
      else if path_name p = [] then Inl (ValueError ''empty name'')
      else let old_suffix = path_suffix p;
               nm = (if old_suffix = [] then path_name p @ sfx
                     else take (length (path_name p) - length old_suffix) (path_name p) @ sfx)
           in Inr (butlast p @ [nm]))"

section \<open>Files\<close>

text \<open>
  A disk gives names to files and holds the text of each file. The files are numbered, so
  that a file stays the same file when it is renamed: an open file object keeps pointing
  at it. The directories of the session store are taken to exist and to be writable.
\<close>

record disk =
  names :: "path \<rightharpoonup> nat"
  data :: "nat \<Rightarrow> string"
  next_inode :: nat

definition read_file :: "disk \<Rightarrow> path \<Rightarrow> string option" where
  "read_file d p = (case names d p of None \<Rightarrow> None | Some i \<Rightarrow> Some (data d i))"

text \<open>
  A file object opened for writing: the file it points at, the position in the file that
  its next write to the disk will go to, and the text that it has taken but not yet put
  on the disk. \<^verbatim>\<open>open(p, 'w')\<close> makes the file empty, creating it if there is none.
  \<^verbatim>\<open>flush\<close> puts the pending text on the disk at the position of the object, over what
  the file holds there. A write adds to the pending text, and the object flushes by
  itself once the pending text has reached the size of its buffer. A rename moves a name
  to the file of another name and fails only when its source is absent; a rename of a
  file onto itself changes nothing, as POSIX has it.
\<close>

record file_obj =
  inode :: nat
  offset :: nat
  pending :: string

definition overlay :: "string \<Rightarrow> nat \<Rightarrow> string \<Rightarrow> string" where
  "overlay old off s =
     take off (old @ replicate (off - length old) (CHR 0x00)) @ s @ drop (off + length s) old"

definition open_w :: "path \<Rightarrow> disk \<Rightarrow> file_obj \<times> disk" where
  "open_w p d =
     (case names d p of
        Some i \<Rightarrow> (\<lparr>inode = i, offset = 0, pending = []\<rparr>, d\<lparr>data := (data d)(i := [])\<rparr>)
      | None \<Rightarrow>
          (\<lparr>inode = next_inode d, offset = 0, pending = []\<rparr>,
           d\<lparr>names := (names d)(p \<mapsto> next_inode d),
             data := (data d)(next_inode d := []),
             next_inode := Suc (next_inode d)\<rparr>))"

definition flush :: "file_obj \<Rightarrow> disk \<Rightarrow> file_obj \<times> disk" where
  "flush f d =
     (f\<lparr>offset := offset f + length (pending f), pending := []\<rparr>,
      d\<lparr>data := (data d)(inode f := overlay (data d (inode f)) (offset f) (pending f))\<rparr>)"

definition write_text :: "nat \<Rightarrow> string \<Rightarrow> file_obj \<Rightarrow> disk \<Rightarrow> file_obj \<times> disk" where
  "write_text cap s f d =
     (let f1 = f\<lparr>pending := pending f @ s\<rparr>
      in if cap \<le> length (pending f1) then flush f1 d else (f1, d))"

definition rename :: "path \<Rightarrow> path \<Rightarrow> disk \<Rightarrow> error + disk" where
  "rename src dst d =
     (case names d src of
        None \<Rightarrow> Inl (FileNotFoundError src)
      | Some i \<Rightarrow>
          Inr (if src = dst then d else d\<lparr>names := ((names d)(src := None))(dst \<mapsto> i)\<rparr>))"

text \<open>
  The file actions of a function, one after the other, on the file object of its
  \<^verbatim>\<open>with\<close> block and the disk. Running a list of actions stops at the first that raises.
\<close>

datatype action = Open_w path | Write string | Close | Rename path path

type_synonym io = "file_obj option \<times> disk"

definition step :: "nat \<Rightarrow> action \<Rightarrow> io \<Rightarrow> error + io" where
  "step cap a s =
     (case a of
        Open_w p \<Rightarrow> (let (f, d) = open_w p (snd s) in Inr (Some f, d))
      | Write c \<Rightarrow>
          (case fst s of
             None \<Rightarrow> Inl (ValueError ''I/O operation on closed file'')
           | Some f \<Rightarrow> (let (f1, d) = write_text cap c f (snd s) in Inr (Some f1, d)))
      | Close \<Rightarrow>
          (case fst s of
             None \<Rightarrow> Inr s
           | Some f \<Rightarrow> Inr (None, snd (flush f (snd s))))
      | Rename src dst \<Rightarrow>
          (case rename src dst (snd s) of
             Inl e \<Rightarrow> Inl e
           | Inr d \<Rightarrow> Inr (fst s, d)))"

fun exec :: "nat \<Rightarrow> action list \<Rightarrow> io \<Rightarrow> (error + unit) \<times> io" where
  "exec cap [] s = (Inr (), s)"
| "exec cap (a # rest) s =
     (case step cap a s of
        Inl e \<Rightarrow> (Inl e, s)
      | Inr s1 \<Rightarrow> exec cap rest s1)"

section \<open>The session document\<close>

text \<open>
  The document has the shape that \<^verbatim>\<open>create_session\<close> gives it: fixed top-level keys,
  under them dictionaries and lists. Task records, command entries, phase history
  entries, the \<^verbatim>\<open>meta\<close> block and the resume point are dictionaries from field names to
  strings; a recorded choice holds an arbitrary JSON value.
\<close>

record phase_info =
  current :: string
  history :: "string dict list"

record execution_info =
  commands :: "string dict list"
  current_task :: "string option"

record document =
  meta :: "string dict"
  phase :: phase_info
  profile :: "string option"
  choices :: "json dict dict"
  user_data :: "string dict"
  tasks :: "string dict dict"
  plan :: "string list"
  execution :: execution_info
  resume_point :: "string dict option"
  expansion_history :: "json list"

text \<open>The dictionary that \<^verbatim>\<open>json.dump\<close> receives, keys in the order of creation.\<close>

definition str_dict :: "string dict \<Rightarrow> json" where
  "str_dict d = JObj (map (\<lambda>(k, v). (k, JStr v)) d)"

definition opt_str :: "string option \<Rightarrow> json" where
  "opt_str x = (case x of None \<Rightarrow> JNull | Some s \<Rightarrow> JStr s)"

definition to_json :: "document \<Rightarrow> json" where
  "to_json d = JObj
     [(''meta'', str_dict (meta d)),
      (''phase'', JObj [(''current'', JStr (current (phase d))),
                        (''history'', JArr (map str_dict (history (phase d))))]),
      (''profile'', opt_str (profile d)),
      (''choices'', JObj (map (\<lambda>(k, v). (k, JObj v)) (choices d))),
      (''user_data'', str_dict (user_data d)),
      (''tasks'', JObj (map (\<lambda>(k, v). (k, str_dict v)) (tasks d))),
      (''plan'', JArr (map JStr (plan d))),
      (''execution'', JObj [(''commands'', JArr (map str_dict (commands (execution d)))),
                            (''current_task'', opt_str (current_task (execution d)))]),
      (''resume_point'', (case resume_point d of None \<Rightarrow> JNull | Some r \<Rightarrow> str_dict r)),
      (''expansion_history'', JArr (expansion_history d))]"

section \<open>The session state machine\<close>

text \<open>
  A \<^verbatim>\<open>SessionState\<close> object (its three directories, \<^verbatim>\<open>session_file\<close> and \<^verbatim>\<open>state\<close>)
  together with what it acts on: the disk, the buffer size of the file objects and the
  clock. Every call of \<^verbatim>\<open>datetime.now().isoformat()\<close> takes the next reading of the clock.
  The serialiser of the Python library is the parameter \<open>dumps\<close> of every operation that
  saves: \<open>dumps j\<close> is the list of the chunks of text that \<^verbatim>\<open>json.dump(j, f, indent=2)\<close>
  writes to \<^verbatim>\<open>f\<close>, one \<^verbatim>\<open>f.write\<close> for each. The identifier that
  \<^verbatim>\<open>_generate_session_id\<close> draws (a formatted date and four random characters) is a
  parameter of \<^verbatim>\<open>create_session\<close>.
\<close>

record world =
  active_dir :: path
  completed_dir :: path
  failed_dir :: path
  session_file :: "path option"
  state :: document
  disk :: disk
  buffer_size :: nat
  clock :: "nat \<Rightarrow> string"
  ticks :: nat

definition now :: "world \<Rightarrow> string \<times> world" where
  "now w = (clock w (ticks w), w\<lparr>ticks := Suc (ticks w)\<rparr>)"

definition tmp_file :: "path \<Rightarrow> error + path" where
  "tmp_file sf = with_suffix sf ''.tmp''"

text \<open>
  \<^verbatim>\<open>_save\<close> sets the \<^verbatim>\<open>updated\<close> field, then opens the temporary file, writes the chunks
  of the document, leaves the \<^verbatim>\<open>with\<close> block, which closes the file object, and renames
  the temporary file onto the session file.
\<close>

definition touch :: "world \<Rightarrow> world" where
  "touch w =
     (let (t, w1) = now w
      in w1\<lparr>state := (state w1)\<lparr>meta := AList.update ''updated'' t (meta (state w1))\<rparr>\<rparr>)"

definition save_program :: "path \<Rightarrow> path \<Rightarrow> string list \<Rightarrow> action list" where
  "save_program sf tmp chunks = [Open_w tmp] @ map Write chunks @ [Close, Rename tmp sf]"

definition save :: "(json \<Rightarrow> string list) \<Rightarrow> world \<Rightarrow> (error + unit) \<times> world" where
  "save dumps w =
     (case session_file w of
        None \<Rightarrow> (Inr (), w)
      | Some sf \<Rightarrow>
          let w2 = touch w
          in case tmp_file sf of
               Inl e \<Rightarrow> (Inl e, w2)
             | Inr tmp \<Rightarrow>
                 (case exec (buffer_size w2) (save_program sf tmp (dumps (to_json (state w2))))
                         (None, disk w2) of
                    (r, h, d) \<Rightarrow> (r, w2\<lparr>disk := d\<rparr>)))"

text \<open>
  \<^verbatim>\<open>_handle_shutdown\<close>, which \<^verbatim>\<open>__init__\<close> installs for \<^verbatim>\<open>SIGTERM\<close> and \<^verbatim>\<open>SIGINT\<close>, up to
  its \<^verbatim>\<open>sys.exit(0)\<close>: an active session is marked as interrupted and saved.
\<close>

definition handle_shutdown :: "(json \<Rightarrow> string list) \<Rightarrow> world \<Rightarrow> world" where
  "handle_shutdown dumps w =
     (if map_of (meta (state w)) ''status'' = Some ''active''
      then let w1 = w\<lparr>state := (state w)\<lparr>meta :=
                      AList.update ''status'' ''interrupted'' (meta (state w))\<rparr>\<rparr>;
               (t, w2) = now w1;
               w3 = w2\<lparr>state := (state w2)\<lparr>meta :=
                      AList.update ''interrupted_at'' t (meta (state w2))\<rparr>\<rparr>
           in snd (save dumps w3)
      else w)"

text \<open>
  The ways in which the process can end while \<^verbatim>\<open>_save\<close> runs, after the first \<open>k\<close> of
  its file actions. Killed outright, nothing more happens, and the text pending in the
  file object is lost. Ended by \<^verbatim>\<open>SIGTERM\<close> or \<^verbatim>\<open>SIGINT\<close>, the handler runs at that
  point; then its \<^verbatim>\<open>sys.exit\<close> leaves the interrupted \<^verbatim>\<open>_save\<close>, and if that was inside
  its \<^verbatim>\<open>with\<close> block, the block closes its file object, which flushes the text pending
  there. \<open>save_stopped\<close> is the disk that the process leaves behind.
\<close>

datatype stop = Killed nat | Signalled nat

definition save_stopped :: "(json \<Rightarrow> string list) \<Rightarrow> stop \<Rightarrow> world \<Rightarrow> disk" where
  "save_stopped dumps how w =
     (case session_file w of
        None \<Rightarrow>
          (case how of
             Killed k \<Rightarrow> disk w
           | Signalled k \<Rightarrow> disk (handle_shutdown dumps w))
      | Some sf \<Rightarrow>
          let w2 = touch w
          in case tmp_file sf of
               Inl e \<Rightarrow> disk w2
             | Inr tmp \<Rightarrow>
                 let program = save_program sf tmp (dumps (to_json (state w2)))
                 in case how of
                      Killed k \<Rightarrow>
                        snd (snd (exec (buffer_size w2) (take k program) (None, disk w2)))
                    | Signalled k \<Rightarrow>
                        (case exec (buffer_size w2) (take k program) (None, disk w2) of
                           (r, h, d) \<Rightarrow>
                             let w3 = handle_shutdown dumps (w2\<lparr>disk := d\<rparr>)
                             in case h of
                                  None \<Rightarrow> disk w3
                                | Some f \<Rightarrow> snd (flush f (disk w3))))"

definition create_session ::
  "(json \<Rightarrow> string list) \<Rightarrow> string \<Rightarrow> string option \<Rightarrow> world \<Rightarrow> (error + string) \<times> world" where
  "create_session dumps session_id prof w =
     (let (t1, w1) = now w;
          (t2, w2) = now w1;
          w3 = w2\<lparr>state :=
                 \<lparr>meta = [(''id'', session_id), (''created'', t1), (''updated'', t2),
                          (''status'', ''active''), (''version'', ''1.0'')],
                  phase = \<lparr>current = ''init'', history = []\<rparr>,
                  profile = prof,
                  choices = [],
                  user_data = [],
                  tasks = [],
                  plan = [],
                  execution = \<lparr>commands = [], current_task = None\<rparr>,
                  resume_point = None,
                  expansion_history = []\<rparr>,
               session_file := Some (active_dir w2 @ [session_id @ ''.json''])\<rparr>
      in case save dumps w3 of
           (Inl e, w4) \<Rightarrow> (Inl e, w4)
         | (Inr u, w4) \<Rightarrow> (Inr session_id, w4))"

definition set_phase :: "(json \<Rightarrow> string list) \<Rightarrow> string \<Rightarrow> world \<Rightarrow> (error + unit) \<times> world" where
  "set_phase dumps ph w =
     (let cur = current (phase (state w))
      in if cur \<noteq> ph
         then let (t, w1) = now w;
                  w2 = w1\<lparr>state := (state w1)\<lparr>phase :=
                         \<lparr>current = ph,
                          history = history (phase (state w1)) @ [[(''phase'', cur), (''ended'', t)]]\<rparr>\<rparr>\<rparr>
              in save dumps w2
         else (Inr (), w))"

definition record_choice ::
  "(json \<Rightarrow> string list) \<Rightarrow> string \<Rightarrow> string \<Rightarrow> json \<Rightarrow> world \<Rightarrow> (error + unit) \<times> world" where
  "record_choice dumps question_id answer val w =
     (let (t, w1) = now w;
          w2 = w1\<lparr>state := (state w1)\<lparr>choices :=
                 AList.update question_id
                   [(''answer'', JStr answer), (''value'', val), (''timestamp'', JStr t)]
                   (choices (state w1))\<rparr>\<rparr>
      in save dumps w2)"

definition record_user_data ::
  "(json \<Rightarrow> string list) \<Rightarrow> string \<Rightarrow> string \<Rightarrow> world \<Rightarrow> (error + unit) \<times> world" where
  "record_user_data dumps key val w =
     save dumps (w\<lparr>state := (state w)\<lparr>user_data := AList.update key val (user_data (state w))\<rparr>\<rparr>)"

text \<open>The loop of \<^verbatim>\<open>set_plan\<close> over the task identifiers.\<close>

fun seed_pending :: "string list \<Rightarrow> string dict dict \<Rightarrow> string dict dict" where
  "seed_pending [] ts = ts"
| "seed_pending (task_id # rest) ts =
     seed_pending rest
       (if map_of ts task_id = None
        then AList.update task_id [(''status'', ''pending'')] ts
        else ts)"

definition set_plan ::
  "(json \<Rightarrow> string list) \<Rightarrow> string list \<Rightarrow> world \<Rightarrow> (error + unit) \<times> world" where
  "set_plan dumps task_ids w =
     (let w1 = w\<lparr>state := (state w)\<lparr>plan := task_ids\<rparr>\<rparr>;
          w2 = w1\<lparr>state := (state w1)\<lparr>tasks := seed_pending task_ids (tasks (state w1))\<rparr>\<rparr>
      in save dumps w2)"

definition start_task ::
  "(json \<Rightarrow> string list) \<Rightarrow> string \<Rightarrow> world \<Rightarrow> (error + unit) \<times> world" where
  "start_task dumps task_id w =
     (let w1 = w\<lparr>state := (state w)\<lparr>execution :=
                 (execution (state w))\<lparr>current_task := Some task_id\<rparr>\<rparr>\<rparr>;
          (t, w2) = now w1;
          w3 = w2\<lparr>state := (state w2)\<lparr>tasks :=
                 AList.update task_id [(''status'', ''in_progress''), (''started'', t)]
                   (tasks (state w2))\<rparr>\<rparr>;
          w4 = w3\<lparr>state := (state w3)\<lparr>resume_point :=
                 Some [(''task_id'', task_id), (''action'', ''retry'')]\<rparr>\<rparr>
      in save dumps w4)"

text \<open>
  \<^verbatim>\<open>self.state["tasks"][task_id][field] = value\<close>: the lookup of \<^verbatim>\<open>task_id\<close> raises
  \<^verbatim>\<open>KeyError\<close> when the task has no record; otherwise the field is set in the record.
\<close>

definition set_task_field ::
  "string \<Rightarrow> string \<Rightarrow> string \<Rightarrow> world \<Rightarrow> error + world" where
  "set_task_field task_id field val w =
     (case map_of (tasks (state w)) task_id of
        None \<Rightarrow> Inl (KeyError task_id)
      | Some r \<Rightarrow>
          Inr (w\<lparr>state := (state w)\<lparr>tasks :=
                 AList.update task_id (AList.update field val r) (tasks (state w))\<rparr>\<rparr>))"

definition complete_task ::
  "(json \<Rightarrow> string list) \<Rightarrow> string \<Rightarrow> world \<Rightarrow> (error + unit) \<times> world" where
  "complete_task dumps task_id w =
     (case set_task_field task_id ''status'' ''completed'' w of
        Inl e \<Rightarrow> (Inl e, w)
      | Inr w1 \<Rightarrow>
          let (t, w2) = now w1
          in case set_task_field task_id ''completed'' t w2 of
               Inl e \<Rightarrow> (Inl e, w2)
             | Inr w3 \<Rightarrow>
                 save dumps (w3\<lparr>state := (state w3)\<lparr>execution :=
                   (execution (state w3))\<lparr>current_task := None\<rparr>\<rparr>\<rparr>))"

definition fail_task ::
  "(json \<Rightarrow> string list) \<Rightarrow> string \<Rightarrow> string \<Rightarrow> world \<Rightarrow> (error + unit) \<times> world" where
  "fail_task dumps task_id err w =
     (case set_task_field task_id ''status'' ''failed'' w of
        Inl e \<Rightarrow> (Inl e, w)
      | Inr w1 \<Rightarrow>
          (case set_task_field task_id ''error'' (take 500 err) w1 of
             Inl e \<Rightarrow> (Inl e, w1)
           | Inr w2 \<Rightarrow>
               let (t, w3) = now w2
               in case set_task_field task_id ''failed_at'' t w3 of
                    Inl e \<Rightarrow> (Inl e, w3)
                  | Inr w4 \<Rightarrow>
                      save dumps (w4\<lparr>state := (state w4)\<lparr>resume_point :=
                        Some [(''task_id'', task_id), (''action'', ''retry_or_skip''),
                              (''error'', take 200 err)]\<rparr>\<rparr>)))"

definition skip_task ::
  "(json \<Rightarrow> string list) \<Rightarrow> string \<Rightarrow> world \<Rightarrow> (error + unit) \<times> world" where
  "skip_task dumps task_id w =
     (let (t, w1) = now w;
          w2 = w1\<lparr>state := (state w1)\<lparr>tasks :=
                 AList.update task_id [(''status'', ''skipped''), (''skipped_at'', t)]
                   (tasks (state w1))\<rparr>\<rparr>
      in save dumps w2)"

definition log_command_start ::
  "(json \<Rightarrow> string list) \<Rightarrow> string \<Rightarrow> string \<Rightarrow> world \<Rightarrow> (error + int) \<times> world" where
  "log_command_start dumps command language w =
     (let (t, w1) = now w;
          cmd_entry = [(''command'', take 1000 command), (''language'', language),
                       (''started'', t), (''status'', ''running'')];
          w2 = w1\<lparr>state := (state w1)\<lparr>execution :=
                 (execution (state w1))\<lparr>commands := commands (execution (state w1)) @ [cmd_entry]\<rparr>\<rparr>\<rparr>
      in case save dumps w2 of
           (Inl e, w3) \<Rightarrow> (Inl e, w3)
         | (Inr u, w3) \<Rightarrow> (Inr (int (length (commands (execution (state w3)))) - 1), w3))"

text \<open>
  \<^verbatim>\<open>log_command_end\<close> guards with \<^verbatim>\<open>index < len(commands)\<close> only, so a negative index
  passes the guard: Python then counts from the end of the list, and raises
  \<^verbatim>\<open>IndexError\<close> below \<^verbatim>\<open>-len(commands)\<close>.
\<close>

definition log_command_end ::
  "(json \<Rightarrow> string list) \<Rightarrow> int \<Rightarrow> bool \<Rightarrow> string \<Rightarrow> string \<Rightarrow> world \<Rightarrow> (error + unit) \<times> world" where
  "log_command_end dumps index success output err w =
     (let cmds = commands (execution (state w)); n = int (length cmds)
      in if index < n
         then if index < - n then (Inl IndexError, w)
              else let i = nat (if index < 0 then n + index else index);
                       cmd = cmds ! i;
                       (t, w1) = now w;
                       cmd1 = AList.update ''ended'' t cmd;
                       cmd2 = AList.update ''status'' (if success then ''success'' else ''failed'') cmd1;
                       cmd3 = (if output \<noteq> [] then AList.update ''output'' (take 500 output) cmd2 else cmd2);
                       cmd4 = (if err \<noteq> [] then AList.update ''error'' (take 500 err) cmd3 else cmd3);
                       w2 = w1\<lparr>state := (state w1)\<lparr>execution :=
                              (execution (state w1))\<lparr>commands := cmds[i := cmd4]\<rparr>\<rparr>\<rparr>
                   in save dumps w2
         else (Inr (), w))"

text \<open>
  The move of the session file into the \<^verbatim>\<open>completed\<close> or \<^verbatim>\<open>failed\<close> directory, made
  after the save and only for a file that lies in the \<^verbatim>\<open>active\<close> directory.
\<close>

definition relocate :: "path \<Rightarrow> world \<Rightarrow> (error + unit) \<times> world" where
  "relocate target_dir w =
     (case session_file w of
        None \<Rightarrow> (Inr (), w)
      | Some sf \<Rightarrow>
          if path_parent sf = active_dir w
          then let new_path = target_dir @ [path_name sf]
               in case rename sf new_path (disk w) of
                    Inl e \<Rightarrow> (Inl e, w)
                  | Inr d \<Rightarrow> (Inr (), w\<lparr>disk := d, session_file := Some new_path\<rparr>)
          else (Inr (), w))"

definition complete_session :: "(json \<Rightarrow> string list) \<Rightarrow> world \<Rightarrow> (error + unit) \<times> world" where
  "complete_session dumps w =
     (let w1 = w\<lparr>state := (state w)\<lparr>meta := AList.update ''status'' ''completed'' (meta (state w))\<rparr>\<rparr>;
          (t, w2) = now w1;
          w3 = w2\<lparr>state := (state w2)\<lparr>meta := AList.update ''completed'' t (meta (state w2))\<rparr>\<rparr>
      in case save dumps w3 of
           (Inl e, w4) \<Rightarrow> (Inl e, w4)
         | (Inr u, w4) \<Rightarrow> relocate (completed_dir w4) w4)"

definition fail_session :: "(json \<Rightarrow> string list) \<Rightarrow> string \<Rightarrow> world \<Rightarrow> (error + unit) \<times> world" where
  "fail_session dumps reason w =
     (let w1 = w\<lparr>state := (state w)\<lparr>meta := AList.update ''status'' ''failed'' (meta (state w))\<rparr>\<rparr>;
          (t, w2) = now w1;
          w3 = w2\<lparr>state := (state w2)\<lparr>meta := AList.update ''failed_at'' t (meta (state w2))\<rparr>\<rparr>;
          w4 = (if reason \<noteq> []
                then w3\<lparr>state := (state w3)\<lparr>meta :=
                       AList.update ''failure_reason'' (take 500 reason) (meta (state w3))\<rparr>\<rparr>
                else w3)
      in case save dumps w4 of
           (Inl e, w5) \<Rightarrow> (Inl e, w5)
         | (Inr u, w5) \<Rightarrow> relocate (failed_dir w5) w5)"

text \<open>\<^verbatim>\<open>get_completed_tasks\<close>: the identifiers whose record has status \<^verbatim>\<open>completed\<close>.\<close>

definition get_completed_tasks :: "document \<Rightarrow> string list" where
  "get_completed_tasks d =
     map fst (filter (\<lambda>(task_id, info). map_of info ''status'' = Some ''completed'') (tasks d))"

text \<open>
  The mutating operations as one type, to speak about all of them at once, and the
  condition under which \<^verbatim>\<open>set_phase\<close> and \<^verbatim>\<open>log_command_end\<close> pass their guard.
\<close>

datatype mutation =
    Set_phase string
  | Record_choice string string json
  | Record_user_data string string
  | Set_plan "string list"
  | Start_task string
  | Complete_task string
  | Fail_task string string
  | Skip_task string
  | Log_command_start string string
  | Log_command_end int bool string string
  | Complete_session
  | Fail_session string

fun perform :: "(json \<Rightarrow> string list) \<Rightarrow> mutation \<Rightarrow> world \<Rightarrow> (error + unit) \<times> world" where
  "perform dumps (Set_phase ph) w = set_phase dumps ph w"
| "perform dumps (Record_choice q a v) w = record_choice dumps q a v w"
| "perform dumps (Record_user_data k v) w = record_user_data dumps k v w"
| "perform dumps (Set_plan ids) w = set_plan dumps ids w"
| "perform dumps (Start_task tid) w = start_task dumps tid w"
| "perform dumps (Complete_task tid) w = complete_task dumps tid w"
| "perform dumps (Fail_task tid err) w = fail_task dumps tid err w"
| "perform dumps (Skip_task tid) w = skip_task dumps tid w"
| "perform dumps (Log_command_start c l) w =
     (case log_command_start dumps c l w of
        (Inl e, w') \<Rightarrow> (Inl e, w')
      | (Inr i, w') \<Rightarrow> (Inr (), w'))"
| "perform dumps (Log_command_end i ok out err) w = log_command_end dumps i ok out err w"
| "perform dumps Complete_session w = complete_session dumps w"
| "perform dumps (Fail_session reason) w = fail_session dumps reason w"

fun changes :: "mutation \<Rightarrow> world \<Rightarrow> bool" where
  "changes (Set_phase ph) w = (current (phase (state w)) \<noteq> ph)"
| "changes (Log_command_end i ok out err) w = (i < int (length (commands (execution (state w)))))"
| "changes m w = True"

text \<open>
  What a mutation needs in order to return: for \<^verbatim>\<open>complete_task\<close> and \<^verbatim>\<open>fail_task\<close>
  the task has a record, for \<^verbatim>\<open>log_command_end\<close> the index is not below the start of
  the log.
\<close>

fun applicable :: "mutation \<Rightarrow> world \<Rightarrow> bool" where
  "applicable (Complete_task tid) w = (map_of (tasks (state w)) tid \<noteq> None)"
| "applicable (Fail_task tid err) w = (map_of (tasks (state w)) tid \<noteq> None)"
| "applicable (Log_command_end i ok out err) w = (- int (length (commands (execution (state w)))) \<le> i)"
| "applicable m w = True"

text \<open>The session file on disk holds the serialised in-memory document.\<close>

definition persisted :: "(json \<Rightarrow> string list) \<Rightarrow> world \<Rightarrow> bool" where
  "persisted dumps w =
     (case session_file w of
        None \<Rightarrow> False
      | Some sf \<Rightarrow> read_file (disk w) sf = Some (concat (dumps (to_json (state w)))))"

section \<open>The system audit\<close>

text \<open>
  \<^verbatim>\<open>scripts/audit-system.py\<close> inspects the host through \<^verbatim>\<open>subprocess.run\<close>,
  \<^verbatim>\<open>os.path.exists\<close> and \<^verbatim>\<open>os.environ\<close>. The host is a record of these three; a
  command run with a timeout exits with a code and its standard output, or runs out of
  time, or cannot be started.
\<close>

datatype cmd_outcome = Exited int string | TimeoutExpired | Raised string

record host =
  shell_run :: "string \<Rightarrow> nat \<Rightarrow> cmd_outcome"
  path_exists :: "string \<Rightarrow> bool"
  environ_SHELL :: "string option"

text \<open>
  Python's \<^verbatim>\<open>str.strip\<close>, \<^verbatim>\<open>str.lower\<close>, \<^verbatim>\<open>str.startswith\<close>, the substring test
  \<^verbatim>\<open>in\<close> and \<^verbatim>\<open>str.split\<close> with a non-empty separator, on ASCII text.
\<close>

definition is_space :: "char \<Rightarrow> bool" where
  "is_space c = (c \<in> set [CHR '' '', CHR 0x09, CHR 0x0A, CHR 0x0B, CHR 0x0C, CHR 0x0D,
                            CHR 0x1C, CHR 0x1D, CHR 0x1E, CHR 0x1F])"

definition strip :: "string \<Rightarrow> string" where
  "strip s = rev (dropWhile is_space (rev (dropWhile is_space s)))"

definition lower_char :: "char \<Rightarrow> char" where
  "lower_char c =
     (if CHR ''A'' \<le> c \<and> c \<le> CHR ''Z'' then char_of (of_char c + (32::nat)) else c)"

definition lower :: "string \<Rightarrow> string" where
  "lower s = map lower_char s"

definition startswith :: "string \<Rightarrow> string \<Rightarrow> bool" where
  "startswith s p = (take (length p) s = p)"

definition contains :: "string \<Rightarrow> string \<Rightarrow> bool" where
  "contains s sub = list_ex (\<lambda>i. startswith (drop i s) sub) [0..<Suc (length s)]"

fun split_acc :: "string \<Rightarrow> string \<Rightarrow> string \<Rightarrow> string list" where
  "split_acc sep acc [] = [rev acc]"
| "split_acc sep acc (c # cs) =
     (if startswith (c # cs) sep
      then rev acc # split_acc sep [] (drop (length sep - 1) cs)
      else split_acc sep (c # acc) cs)"

definition split :: "string \<Rightarrow> string \<Rightarrow> string list" where
  "split s sep = split_acc sep [] s"

definition run_command :: "host \<Rightarrow> string \<Rightarrow> nat \<Rightarrow> int \<times> string" where
  "run_command h cmd timeout =
     (case shell_run h cmd timeout of
        Exited returncode out \<Rightarrow> (returncode, strip out)
      | TimeoutExpired \<Rightarrow> (- 1, ''timeout'')
      | Raised msg \<Rightarrow> (- 1, msg))"

record SystemInfo =
  hostname :: string
  macos_version :: string
  architecture :: string
  shell :: string
  homebrew_installed :: bool
  homebrew_prefix :: string
  xcode_cli_installed :: bool

definition get_system_info :: "host \<Rightarrow> SystemInfo" where
  "get_system_info h =
     (let (c1, o1) = run_command h ''hostname -s'' 10;
          (c2, o2) = run_command h ''sw_vers -productVersion'' 10;
          (c3, o3) = run_command h ''uname -m'' 10;
          (c4, o4) = run_command h ''command -v brew'' 10;
          prefix = (if c4 = 0
                    then let (c5, o5) = run_command h ''brew --prefix'' 10
                         in if c5 = 0 then o5 else []
                    else []);
          (c6, o6) = run_command h ''xcode-select -p'' 10
      in \<lparr>hostname = (if c1 = 0 then o1 else ''unknown''),
          macos_version = (if c2 = 0 then o2 else ''unknown''),
          architecture = (if c3 = 0 then o3 else ''unknown''),
          shell = (case environ_SHELL h of None \<Rightarrow> ''/bin/zsh'' | Some sh \<Rightarrow> sh),
          homebrew_installed = (c4 = 0),
          homebrew_prefix = prefix,
          xcode_cli_installed = (c6 = 0)\<rparr>)"

text \<open>
  A task of a manifest, as \<^verbatim>\<open>load_tasks\<close> hands it over: the keys \<^verbatim>\<open>name\<close> and
  \<^verbatim>\<open>category\<close> and the three keys of the \<^verbatim>\<open>detection\<close> block, each present or not.
\<close>

record task =
  task_name :: "string option"
  task_category :: "string option"
  check_command :: "string option"
  version_command :: "string option"
  installed_indicator :: "string option"

record ToolStatus =
  task_id :: string
  name :: string
  category :: string
  installed :: bool
  version :: "string option"
  install_path :: "string option"
  detection_method :: string
  error :: "string option"

definition truthy :: "string option \<Rightarrow> bool" where
  "truthy x = (case x of None \<Rightarrow> False | Some s \<Rightarrow> s \<noteq> [])"

definition strip_prefix :: "string \<Rightarrow> string \<Rightarrow> string" where
  "strip_prefix v p = (if startswith (lower v) (lower p) then drop (length p) v else v)"

definition get_version :: "host \<Rightarrow> task \<Rightarrow> string option" where
  "get_version h t =
     (case version_command t of
        None \<Rightarrow> None
      | Some version_cmd \<Rightarrow>
          if version_cmd = [] then None
          else let (code, out) = run_command h version_cmd 5
               in if code = 0 \<and> out \<noteq> []
                  then Some (take 50
                    (foldl strip_prefix (takeWhile (\<lambda>c. c \<noteq> CHR 0x0A) out)
                       [''v'', ''version '', ''Version '']))
                  else None)"

definition get_install_path :: "host \<Rightarrow> task \<Rightarrow> error + string option" where
  "get_install_path h t =
     (if truthy (installed_indicator t)
         \<and> startswith (the (installed_indicator t)) ''/Applications''
         \<and> path_exists h (the (installed_indicator t))
      then Inr (installed_indicator t)
      else let check_cmd = (case check_command t of None \<Rightarrow> [] | Some c \<Rightarrow> c);
               parts = split check_cmd ''command -v''
           in if contains check_cmd ''command -v'' \<and> 1 < length parts
              then let rest = strip (parts ! 1)
                   in if rest = [] then Inl IndexError
                      else let cmd_name = takeWhile (\<lambda>c. \<not> is_space c) rest;
                               (code, out) = run_command h (''command -v '' @ cmd_name) 10
                           in if code = 0 then Inr (Some out) else Inr None
              else Inr None)"

definition check_tool :: "host \<Rightarrow> string \<Rightarrow> task \<Rightarrow> bool \<Rightarrow> error + ToolStatus" where
  "check_tool h tid t quick =
     (let status = \<lparr>task_id = tid,
                    name = (case task_name t of None \<Rightarrow> tid | Some n \<Rightarrow> n),
                    category = (case task_category t of None \<Rightarrow> ''unknown'' | Some c \<Rightarrow> c),
                    installed = False,
                    version = None,
                    install_path = None,
                    detection_method =
                      (if truthy (check_command t) then take 60 (the (check_command t))
                       else ''(none)''),
                    error = None\<rparr>
      in if \<not> truthy (check_command t)
         then Inr (status\<lparr>error := Some ''No detection command''\<rparr>)
         else let (code, out) = run_command h (the (check_command t)) 10;
                  status1 = status\<lparr>installed := (code = 0)\<rparr>
              in if installed status1 \<and> \<not> quick
                 then let status2 = status1\<lparr>version := get_version h t\<rparr>
                      in case get_install_path h t of
                           Inl e \<Rightarrow> Inl e
                         | Inr p \<Rightarrow> Inr (status2\<lparr>install_path := p\<rparr>)
                 else Inr status1)"

text \<open>
  The summary of a report. The per-category tally is the dictionary that the loop of
  \<^verbatim>\<open>run_audit\<close> fills, a pair of \<^verbatim>\<open>installed\<close> and \<^verbatim>\<open>total\<close> for each category.
\<close>

record tally =
  installed_in :: nat
  total_in :: nat

record summary_info =
  total_tools :: nat
  installed_tools :: nat
  not_installed_tools :: nat
  error_tools :: nat
  by_category :: "tally dict"

record drift_info =
  added_outside_session :: "json set"
  removed_since_session :: "json set"
  still_installed :: "json set"

record AuditReport =
  timestamp :: string
  system :: SystemInfo
  tools :: "ToolStatus list"
  summary :: summary_info
  drift :: "drift_info option"

definition count_tool :: "tally dict \<Rightarrow> ToolStatus \<Rightarrow> tally dict" where
  "count_tool by_cat tool =
     (let cat = category tool;
          d0 = (if map_of by_cat cat = None
                then AList.update cat \<lparr>installed_in = 0, total_in = 0\<rparr> by_cat
                else by_cat);
          c0 = the (map_of d0 cat);
          c1 = c0\<lparr>total_in := total_in c0 + 1\<rparr>;
          c2 = (if installed tool then c1\<lparr>installed_in := installed_in c1 + 1\<rparr> else c1)
      in AList.update cat c2 d0)"

definition summarise :: "ToolStatus list \<Rightarrow> summary_info" where
  "summarise ts =
     \<lparr>total_tools = length ts,
      installed_tools = length (filter installed ts),
      not_installed_tools = length (filter (\<lambda>t. \<not> installed t \<and> \<not> truthy (error t)) ts),
      error_tools = length (filter (\<lambda>t. truthy (error t)) ts),
      by_category = foldl count_tool [] ts\<rparr>"

text \<open>
  The loop that gathers the results stops at the first probe that raises. In sequential
  mode the probes run in the order of the task dictionary; in parallel mode the results
  arrive in the order in which the workers finish, which is the argument \<open>finished\<close>,
  some arrangement of the same tasks.
\<close>

fun gather :: "('a \<Rightarrow> error + 'b) \<Rightarrow> 'a list \<Rightarrow> error + 'b list" where
  "gather f [] = Inr []"
| "gather f (x # xs) =
     (case f x of
        Inl e \<Rightarrow> Inl e
      | Inr y \<Rightarrow> (case gather f xs of Inl e \<Rightarrow> Inl e | Inr ys \<Rightarrow> Inr (y # ys)))"

definition run_audit ::
  "host \<Rightarrow> string \<Rightarrow> (string \<times> task) list \<Rightarrow> bool \<Rightarrow> bool \<Rightarrow> (string \<times> task) list
     \<Rightarrow> error + AuditReport" where
  "run_audit h stamp task_items quick parallel finished =
     (case gather (\<lambda>(tid, t). check_tool h tid t quick)
             (if parallel \<and> \<not> quick then finished else task_items) of
        Inl e \<Rightarrow> Inl e
      | Inr results \<Rightarrow>
          let sorted_tools = sort_key (\<lambda>t. (category t, name t)) results
          in Inr \<lparr>timestamp = stamp,
                  system = get_system_info h,
                  tools = sorted_tools,
                  summary = summarise sorted_tools,
                  drift = None\<rparr>)"

text \<open>
  \<^verbatim>\<open>compare_with_session\<close> on the document that \<^verbatim>\<open>json.load\<close> returns. The members of
  a Python set are compared with \<^verbatim>\<open>==\<close>, under which \<^verbatim>\<open>True\<close> is \<^verbatim>\<open>1\<close>; lists and
  dictionaries cannot be members.
\<close>

definition iterate :: "json \<Rightarrow> error + json list" where
  "iterate j =
     (case j of
        JArr xs \<Rightarrow> Inr xs
      | JObj kvs \<Rightarrow> Inr (map (\<lambda>kv. JStr (fst kv)) kvs)
      | JStr s \<Rightarrow> Inr (map (\<lambda>c. JStr [c]) s)
      | _ \<Rightarrow> Inl TypeError)"

definition session_task_id :: "json \<Rightarrow> error + json" where
  "session_task_id item =
     (case item of
        JObj kvs \<Rightarrow>
          (case (case map_of kvs ''task_id'' of
                   Some v \<Rightarrow> v
                 | None \<Rightarrow> (case map_of kvs ''id'' of Some v \<Rightarrow> v | None \<Rightarrow> JStr [])) of
             JArr xs \<Rightarrow> Inl TypeError
           | JObj m \<Rightarrow> Inl TypeError
           | JBool b \<Rightarrow> Inr (JInt (if b then 1 else 0))
           | v \<Rightarrow> Inr v)
      | _ \<Rightarrow> Inl AttributeError)"

definition compare_with_session :: "AuditReport \<Rightarrow> json \<Rightarrow> error + drift_info" where
  "compare_with_session report session =
     (case session of
        JObj kvs \<Rightarrow>
          (case (case map_of kvs ''completed_tasks'' of
                   None \<Rightarrow> Inr []
                 | Some v \<Rightarrow> iterate v) of
             Inl e \<Rightarrow> Inl e
           | Inr items \<Rightarrow>
               (case gather session_task_id items of
                  Inl e \<Rightarrow> Inl e
                | Inr ids \<Rightarrow>
                    let session_tools = set ids;
                        current_installed =
                          set (map (\<lambda>t. JStr (task_id t)) (filter installed (tools report)))
                    in Inr \<lparr>added_outside_session = current_installed - session_tools,
                            removed_since_session = session_tools - current_installed,
                            still_installed = current_installed \<inter> session_tools\<rparr>))
      | _ \<Rightarrow> Inl AttributeError)"

text \<open>
  The pair under which \<^verbatim>\<open>run_audit\<close> sorts the result of a task: the category and the
  display name that \<^verbatim>\<open>check_tool\<close> takes from the task. The tally of a category counted
  directly, and the elements of a list in the order of their first occurrence, describe
  the dictionary that the loop over the tools builds.
\<close>

definition report_key :: "string \<times> task \<Rightarrow> string \<times> string" where
  "report_key item =
     (case task_category (snd item) of None \<Rightarrow> ''unknown'' | Some c \<Rightarrow> c,
      case task_name (snd item) of None \<Rightarrow> fst item | Some n \<Rightarrow> n)"

definition tally_of :: "ToolStatus list \<Rightarrow> string \<Rightarrow> tally" where
  "tally_of ts c =
     \<lparr>installed_in = length (filter (\<lambda>t. category t = c \<and> installed t) ts),
      total_in = length (filter (\<lambda>t. category t = c) ts)\<rparr>"

definition first_seen :: "'a list \<Rightarrow> 'a list" where
  "first_seen xs = rev (remdups (rev xs))"

text \<open>
  A disk on which no file has two names and the numbers not yet given out are not in use.
\<close>

definition sound_disk :: "disk \<Rightarrow> bool" where
  "sound_disk d =
     ((\<forall>p q i. names d p = Some i \<and> names d q = Some i \<longrightarrow> p = q)
      \<and> (\<forall>p i. names d p = Some i \<longrightarrow> i < next_inode d))"

section \<open>Example sessions and hosts\<close>

text \<open>
  A clock, a serialiser that writes a document token by token, without indentation and
  without escapes, and the world right after \<^verbatim>\<open>create_session\<close>, on which the theorems
  below are tried.
\<close>

definition demo_clock :: "nat \<Rightarrow> string" where
  "demo_clock n = CHR ''t'' # replicate n (CHR ''+'')"

fun decimal :: "nat \<Rightarrow> string" where
  "decimal n =
     (if n < 10 then [char_of (48 + n)] else decimal (n div 10) @ [char_of (48 + n mod 10)])"

definition quoted :: "string \<Rightarrow> string" where
  "quoted s = [CHR 0x22] @ s @ [CHR 0x22]"

fun commas :: "string list list \<Rightarrow> string list" where
  "commas [] = []"
| "commas [x] = x"
| "commas (x # y # rest) = x @ ['', ''] @ commas (y # rest)"

fun demo_dumps :: "json \<Rightarrow> string list" where
  "demo_dumps JNull = [''null'']"
| "demo_dumps (JBool b) = [if b then ''true'' else ''false'']"
| "demo_dumps (JInt i) = [(if i < 0 then ''-'' else []) @ decimal (nat \<bar>i\<bar>)]"
| "demo_dumps (JStr s) = [quoted s]"
| "demo_dumps (JArr xs) =
     (if xs = [] then [''[]''] else [''[''] @ commas (map demo_dumps xs) @ ['']''])"
| "demo_dumps (JObj kvs) =
     (if kvs = [] then [''{}'']
      else [''{''] @ commas (map (\<lambda>kv. [quoted (fst kv), '': ''] @ demo_dumps (snd kv)) kvs)
           @ [''}''])"

definition demo_document :: document where
  "demo_document =
     \<lparr>meta = [(''id'', ''prov-demo''), (''created'', ''t''), (''updated'', ''t++''),
              (''status'', ''active''), (''version'', ''1.0'')],
      phase = \<lparr>current = ''init'', history = []\<rparr>,
      profile = None,
      choices = [],
      user_data = [],
      tasks = [],
      plan = [],
      execution = \<lparr>commands = [], current_task = None\<rparr>,
      resume_point = None,
      expansion_history = []\<rparr>"

definition demo_world :: world where
  "demo_world =
     \<lparr>active_dir = [''sessions'', ''active''],
      completed_dir = [''sessions'', ''completed''],
      failed_dir = [''sessions'', ''failed''],
      session_file = Some [''sessions'', ''active'', ''prov-demo.json''],
      state = demo_document,
      disk = \<lparr>names = [[''sessions'', ''active'', ''prov-demo.json''] \<mapsto> 0],
               data = (\<lambda>i. [])(0 := concat (demo_dumps (to_json demo_document))),
               next_inode = 1\<rparr>,
      buffer_size = 8192,
      clock = demo_clock,
      ticks = 3\<rparr>"

text \<open>The same world with one task in progress.\<close>

definition busy_world :: world where
  "busy_world =
     demo_world\<lparr>state := demo_document\<lparr>tasks :=
       [(''nvm'', [(''status'', ''in_progress''), (''started'', ''t+++'')])]\<rparr>\<rparr>"

text \<open>
  A session whose tasks \<^verbatim>\<open>b\<close>, \<^verbatim>\<open>c\<close> and \<^verbatim>\<open>d\<close> are completed, and a report that finds
  \<^verbatim>\<open>a\<close>, \<^verbatim>\<open>b\<close> and \<^verbatim>\<open>c\<close> installed.
\<close>

definition done_record :: "string dict" where
  "done_record = [(''status'', ''completed''), (''started'', ''t1''), (''completed'', ''t2'')]"

definition drift_session :: document where
  "drift_session =
     demo_document\<lparr>tasks := [(''b'', done_record), (''c'', done_record), (''d'', done_record)]\<rparr>"

definition found :: "string \<Rightarrow> ToolStatus" where
  "found tid =
     \<lparr>task_id = tid, name = tid, category = ''cli-tools'', installed = True, version = None,
      install_path = None, detection_method = ''command -v '' @ tid, error = None\<rparr>"

definition drift_report :: AuditReport where
  "drift_report =
     \<lparr>timestamp = ''t'',
      system = \<lparr>hostname = ''unknown'', macos_version = ''unknown'', architecture = ''unknown'',
                shell = ''/bin/zsh'', homebrew_installed = False, homebrew_prefix = [],
                xcode_cli_installed = False\<rparr>,
      tools = [found ''a'', found ''b'', found ''c''],
      summary = summarise [found ''a'', found ''b'', found ''c''],
      drift = None\<rparr>"

text \<open>A host on which every command runs out of time, and a task probed on it.\<close>

definition slow_host :: host where
  "slow_host = \<lparr>shell_run = (\<lambda>cmd timeout. TimeoutExpired), path_exists = (\<lambda>p. False),
                 environ_SHELL = None\<rparr>"

definition slow_task :: task where
  "slow_task = \<lparr>task_name = Some ''Slow'', task_category = Some ''cli-tools'',
                 check_command = Some ''sleep 60'', version_command = None,
                 installed_indicator = None\<rparr>"

text \<open>
  A host on which \<^verbatim>\<open>true\<close> succeeds and every other command fails, two tasks of one
  category that carry the same display name, and two tasks that do not.
\<close>

definition tie_host :: host where
  "tie_host = \<lparr>shell_run = (\<lambda>cmd timeout. if cmd = ''true'' then Exited 0 [] else Exited 1 []),
                path_exists = (\<lambda>p. False), environ_SHELL = None\<rparr>"

definition probe_task :: "string \<Rightarrow> string \<Rightarrow> task" where
  "probe_task display cmd =
     \<lparr>task_name = Some display, task_category = Some ''editors'', check_command = Some cmd,
      version_command = None, installed_indicator = None\<rparr>"

definition tie_tasks :: "(string \<times> task) list" where
  "tie_tasks = [(''code'', probe_task ''Code'' ''true''), (''code-insiders'', probe_task ''Code'' ''false'')]"

definition plain_tasks :: "(string \<times> task) list" where
  "plain_tasks = [(''vim'', probe_task ''Vim'' ''true''), (''emacs'', probe_task ''Emacs'' ''false'')]"

section \<open>Writing a file\<close>

lemma overlay_end [simp]: "overlay old (length old) s = old @ s"
  by (simp add: overlay_def)

lemma overlay_start: "overlay old 0 s = s @ drop (length s) old"
  by (simp add: overlay_def)

lemma exec_append:
  "exec cap (xs @ ys) s =
     (case exec cap xs s of (Inl e, s1) \<Rightarrow> (Inl e, s1) | (Inr u, s1) \<Rightarrow> exec cap ys s1)"
  by (induction xs arbitrary: s) (auto split: sum.splits)

lemma exec_writes:
  assumes "offset f = length (data d (inode f))"
  shows "\<exists>f1 d1. exec cap (map Write cs) (Some f, d) = (Inr (), Some f1, d1)
           \<and> inode f1 = inode f
           \<and> offset f1 = length (data d1 (inode f))
           \<and> data d1 (inode f) @ pending f1 = data d (inode f) @ pending f @ concat cs
           \<and> names d1 = names d \<and> next_inode d1 = next_inode d
           \<and> (\<forall>j. j \<noteq> inode f \<longrightarrow> data d1 j = data d j)"
  using assms
proof (induction cs arbitrary: f d)
  case Nil
  then show ?case by simp
next
  case (Cons c cs)
  obtain f0 d0 where w: "write_text cap c f d = (f0, d0)"
    by (cases "write_text cap c f d")
  with Cons.prems have p: "inode f0 = inode f" "offset f0 = length (data d0 (inode f))"
    "data d0 (inode f) @ pending f0 = data d (inode f) @ pending f @ c"
    "names d0 = names d" "next_inode d0 = next_inode d"
    "\<forall>j. j \<noteq> inode f \<longrightarrow> data d0 j = data d j"
    by (auto simp: write_text_def flush_def Let_def split: if_splits)
  from p(1,2) have "offset f0 = length (data d0 (inode f0))" by simp
  from Cons.IH [OF this] p w show ?case
    by (auto simp: step_def)
qed

lemma exec_writes_buffered:
  assumes "length (pending f @ concat cs) < cap"
  shows "exec cap (map Write cs) (Some f, d) = (Inr (), Some (f\<lparr>pending := pending f @ concat cs\<rparr>), d)"
  using assms
  by (induction cs arbitrary: f) (auto simp: step_def write_text_def Let_def)

text \<open>The whole program: the session file names a file that holds the text.\<close>

lemma exec_save_program:
  "\<exists>d1. exec cap (save_program sf tmp cs) (None, d) = (Inr (), None, d1)
        \<and> read_file d1 sf = Some (concat cs)
        \<and> names d1 sf = Some (case names d tmp of Some i \<Rightarrow> i | None \<Rightarrow> next_inode d)
        \<and> data d1 (case names d tmp of Some i \<Rightarrow> i | None \<Rightarrow> next_inode d) = concat cs"
proof -
  obtain f d0 where o: "open_w tmp d = (f, d0)"
    by (cases "open_w tmp d")
  then have f: "inode f = (case names d tmp of Some i \<Rightarrow> i | None \<Rightarrow> next_inode d)"
    "offset f = 0" "pending f = []" "data d0 (inode f) = []" "names d0 tmp = Some (inode f)"
    by (auto simp: open_w_def split: option.splits)
  then have "offset f = length (data d0 (inode f))" by simp
  from exec_writes [OF this, of cap cs] obtain f1 d1 where
    w: "exec cap (map Write cs) (Some f, d0) = (Inr (), Some f1, d1)"
    "inode f1 = inode f" "offset f1 = length (data d1 (inode f))"
    "data d1 (inode f) @ pending f1 = data d0 (inode f) @ pending f @ concat cs"
    "names d1 = names d0"
    by blast
  with f have "names (snd (flush f1 d1)) tmp = Some (inode f)"
    "data (snd (flush f1 d1)) (inode f) = concat cs"
    by (simp_all add: flush_def)
  with o w f show ?thesis
    by (auto simp: save_program_def exec_append step_def rename_def read_file_def)
qed

section \<open>Temporary paths\<close>

lemma rfind_json: "rfind (stem @ ''.json'') (CHR ''.'') = int (length stem)"
  by (simp add: rfind_def)

lemma tmp_file_json:
  "tmp_file (d @ [stem @ ''.json'']) =
     Inr (d @ [(if stem = [] then ''.json'' else stem) @ ''.tmp''])"
  by (simp add: tmp_file_def with_suffix_def path_suffix_def path_name_def rfind_json Let_def)

section \<open>Task and phase transitions\<close>

lemma touch_state:
  "state (touch w) =
     (state w)\<lparr>meta := AList.update ''updated'' (clock w (ticks w)) (meta (state w))\<rparr>"
  by (simp add: touch_def now_def)

lemma touch_fields [simp]:
  "ticks (touch w) = Suc (ticks w)"
  "clock (touch w) = clock w"
  "disk (touch w) = disk w"
  "buffer_size (touch w) = buffer_size w"
  "session_file (touch w) = session_file w"
  "active_dir (touch w) = active_dir w"
  "completed_dir (touch w) = completed_dir w"
  "failed_dir (touch w) = failed_dir w"
  by (simp_all add: touch_def now_def)

lemma save_state:
  "state (snd (save dumps w)) =
     (if session_file w = None then state w
      else (state w)\<lparr>meta := AList.update ''updated'' (clock w (ticks w)) (meta (state w))\<rparr>)"
  by (auto simp: save_def touch_state Let_def split: option.splits sum.splits prod.splits)

lemma save_keeps:
  "tasks (state (snd (save dumps w))) = tasks (state w)"
  "plan (state (snd (save dumps w))) = plan (state w)"
  "phase (state (snd (save dumps w))) = phase (state w)"
  "execution (state (snd (save dumps w))) = execution (state w)"
  "resume_point (state (snd (save dumps w))) = resume_point (state w)"
  by (simp_all add: save_state)

lemma demo_tmp:
  "tmp_file [''sessions'', ''active'', ''prov-demo.json'']
     = Inr [''sessions'', ''active'', ''prov-demo.tmp'']"
  using tmp_file_json [of "[''sessions'', ''active'']" "''prov-demo''"] by simp

text \<open>
  C4: \<^verbatim>\<open>start_task\<close> replaces the record of the task by one that holds only the
  status \<^verbatim>\<open>in_progress\<close> and the start time, makes the task the current one and sets
  the resume point to a retry of it. Started after \<^verbatim>\<open>fail_task\<close>, the task has a record
  with status \<^verbatim>\<open>in_progress\<close> and no \<^verbatim>\<open>error\<close> field.
\<close>

theorem start_task_replaces_record:
  "map_of (tasks (state (snd (start_task dumps tid w)))) tid
     = Some [(''status'', ''in_progress''), (''started'', clock w (ticks w))]
   \<and> current_task (execution (state (snd (start_task dumps tid w)))) = Some tid
   \<and> resume_point (state (snd (start_task dumps tid w)))
     = Some [(''task_id'', tid), (''action'', ''retry'')]
   \<and> (\<exists>r. map_of (tasks (state (snd (start_task dumps tid
                (snd (fail_task dumps tid err w)))))) tid = Some r
          \<and> map_of r ''status'' = Some ''in_progress''
          \<and> map_of r ''error'' = None)"
  by (simp add: start_task_def now_def Let_def save_keeps AList.update_conv')

theorem start_task_replaces_record_witness:
  "map_of (tasks (state (snd (start_task demo_dumps ''nvm'' busy_world)))) ''nvm''
     = Some [(''status'', ''in_progress''), (''started'', ''t+++'')]
   \<and> current_task (execution (state (snd (start_task demo_dumps ''nvm'' busy_world)))) = Some ''nvm''
   \<and> map_of (the (map_of (tasks (state (snd (fail_task demo_dumps ''nvm'' ''boom'' busy_world)))) ''nvm''))
        ''error'' = Some ''boom''
   \<and> (\<exists>r. map_of (tasks (state (snd (start_task demo_dumps ''nvm''
                (snd (fail_task demo_dumps ''nvm'' ''boom'' busy_world)))))) ''nvm'' = Some r
          \<and> map_of r ''status'' = Some ''in_progress''
          \<and> map_of r ''error'' = None)"
proof -
  have "map_of (the (map_of (tasks (state (snd (fail_task demo_dumps ''nvm'' ''boom'' busy_world)))) ''nvm''))
        ''error'' = Some ''boom''"
    by (simp add: fail_task_def set_task_field_def now_def Let_def save_keeps busy_world_def
        demo_world_def)
  moreover have "clock busy_world (ticks busy_world) = ''t+++''"
    by (simp add: busy_world_def demo_world_def demo_clock_def numeral_3_eq_3)
  ultimately show ?thesis
    using start_task_replaces_record [of demo_dumps "''nvm''" busy_world "''boom''"]
    by simp
qed

lemma map_of_seed_pending:
  "map_of (seed_pending ids ts) tid =
     (case map_of ts tid of
        Some r \<Rightarrow> Some r
      | None \<Rightarrow> if tid \<in> set ids then Some [(''status'', ''pending'')] else None)"
  by (induction ids arbitrary: ts) (auto simp: AList.update_conv' split: option.splits)

text \<open>
  C5: \<^verbatim>\<open>set_plan\<close> replaces the plan, leaves every existing task record as it is and
  gives a \<^verbatim>\<open>pending\<close> record to exactly the listed identifiers that had none. So a
  second \<^verbatim>\<open>set_plan\<close>, whatever its list, does not reset a record that was there.
\<close>

theorem set_plan_keeps_existing:
  "plan (state (snd (set_plan dumps ids w))) = ids
   \<and> (\<forall>tid r. map_of (tasks (state w)) tid = Some r \<longrightarrow>
         map_of (tasks (state (snd (set_plan dumps ids w)))) tid = Some r)
   \<and> (\<forall>tid. map_of (tasks (state w)) tid = None \<longrightarrow>
         map_of (tasks (state (snd (set_plan dumps ids w)))) tid
           = (if tid \<in> set ids then Some [(''status'', ''pending'')] else None))
   \<and> (\<forall>tid r. map_of (tasks (state w)) tid = Some r \<longrightarrow>
         map_of (tasks (state (snd (set_plan dumps more_ids (snd (set_plan dumps ids w)))))) tid
           = Some r)"
  by (simp add: set_plan_def Let_def save_keeps map_of_seed_pending)

theorem set_plan_keeps_existing_witness:
  "map_of (tasks (state busy_world)) ''nvm''
     = Some [(''status'', ''in_progress''), (''started'', ''t+++'')]
   \<and> map_of (tasks (state (snd (set_plan demo_dumps [''homebrew'', ''nvm''] busy_world)))) ''nvm''
     = Some [(''status'', ''in_progress''), (''started'', ''t+++'')]
   \<and> map_of (tasks (state busy_world)) ''homebrew'' = None
   \<and> map_of (tasks (state (snd (set_plan demo_dumps [''homebrew'', ''nvm''] busy_world)))) ''homebrew''
     = Some [(''status'', ''pending'')]
   \<and> map_of (tasks (state (snd (set_plan demo_dumps [''nvm'', ''node-lts'']
          (snd (set_plan demo_dumps [''homebrew'', ''nvm''] busy_world)))))) ''nvm''
     = Some [(''status'', ''in_progress''), (''started'', ''t+++'')]"
proof -
  have a: "map_of (tasks (state busy_world)) ''nvm''
      = Some [(''status'', ''in_progress''), (''started'', ''t+++'')]"
    and b: "map_of (tasks (state busy_world)) ''homebrew'' = None"
    by (simp_all add: busy_world_def)
  from set_plan_keeps_existing [of demo_dumps "[''homebrew'', ''nvm'']" busy_world "[''nvm'', ''node-lts'']"]
    a b
  show ?thesis by simp
qed

text \<open>
  C7: \<^verbatim>\<open>set_phase\<close> with the current phase returns with the world unchanged: no history
  entry, no clock reading, nothing written. With another phase it appends one history
  entry, for the phase left and the time of leaving, and makes the new phase current.
  From \<^verbatim>\<open>init\<close>, two calls with \<^verbatim>\<open>requirements\<close> append the one entry for \<^verbatim>\<open>init\<close>.
\<close>

theorem set_phase_history:
  "(current (phase (state w)) = ph \<longrightarrow> set_phase dumps ph w = (Inr (), w))
   \<and> (current (phase (state w)) \<noteq> ph \<longrightarrow>
        phase (state (snd (set_phase dumps ph w)))
          = \<lparr>current = ph,
             history = history (phase (state w))
                @ [[(''phase'', current (phase (state w))), (''ended'', clock w (ticks w))]]\<rparr>)
   \<and> (current (phase (state w)) = ''init'' \<longrightarrow>
        history (phase (state (snd (set_phase dumps ''requirements''
                   (snd (set_phase dumps ''requirements'' w))))))
          = history (phase (state w)) @ [[(''phase'', ''init''), (''ended'', clock w (ticks w))]])"
  by (simp add: set_phase_def now_def Let_def save_keeps)

theorem set_phase_history_witness:
  "current (phase (state demo_world)) = ''init''
   \<and> set_phase demo_dumps ''init'' demo_world = (Inr (), demo_world)
   \<and> phase (state (snd (set_phase demo_dumps ''requirements'' demo_world)))
       = \<lparr>current = ''requirements'', history = [[(''phase'', ''init''), (''ended'', ''t+++'')]]\<rparr>
   \<and> history (phase (state (snd (set_phase demo_dumps ''requirements''
                   (snd (set_phase demo_dumps ''requirements'' demo_world))))))
       = [[(''phase'', ''init''), (''ended'', ''t+++'')]]"
proof -
  have a: "current (phase (state demo_world)) = ''init''"
    and b: "history (phase (state demo_world)) = []"
    and c: "clock demo_world (ticks demo_world) = ''t+++''"
    by (simp_all add: demo_world_def demo_document_def demo_clock_def numeral_3_eq_3)
  from set_phase_history [of demo_world "''init''" demo_dumps]
    set_phase_history [of demo_world "''requirements''" demo_dumps] a b c
  show ?thesis by simp
qed

text \<open>
  C8: on a task that has a record, \<^verbatim>\<open>fail_task\<close> sets the status \<^verbatim>\<open>failed\<close>, stores the
  first 500 characters of the error and the time of failure, and sets the resume point
  to \<^verbatim>\<open>retry_or_skip\<close> with the first 200 characters of the error. An error of 1000
  characters is stored with 500.
\<close>

theorem fail_task_truncates:
  assumes "map_of (tasks (state w)) tid = Some r"
  shows "map_of (tasks (state (snd (fail_task dumps tid err w)))) tid
           = Some (AList.update ''failed_at'' (clock w (ticks w))
                    (AList.update ''error'' (take 500 err)
                      (AList.update ''status'' ''failed'' r)))
       \<and> (\<exists>r'. map_of (tasks (state (snd (fail_task dumps tid err w)))) tid = Some r'
           \<and> map_of r' ''status'' = Some ''failed''
           \<and> map_of r' ''error'' = Some (take 500 err)
           \<and> map_of r' ''failed_at'' = Some (clock w (ticks w))
           \<and> (length err = 1000 \<longrightarrow> length (the (map_of r' ''error'')) = 500))
       \<and> resume_point (state (snd (fail_task dumps tid err w)))
           = Some [(''task_id'', tid), (''action'', ''retry_or_skip''), (''error'', take 200 err)]"
  using assms
  by (simp add: fail_task_def set_task_field_def now_def Let_def save_keeps AList.update_conv')

theorem fail_task_truncates_witness:
  "map_of (tasks (state busy_world)) ''nvm''
     = Some [(''status'', ''in_progress''), (''started'', ''t+++'')]
   \<and> length (replicate 1000 (CHR ''x'')) = 1000
   \<and> map_of (tasks (state (snd (fail_task demo_dumps ''nvm'' (replicate 1000 (CHR ''x'')) busy_world)))) ''nvm''
     = Some [(''status'', ''failed''), (''started'', ''t+++''),
             (''error'', replicate 500 (CHR ''x'')), (''failed_at'', ''t+++'')]
   \<and> resume_point (state (snd (fail_task demo_dumps ''nvm'' (replicate 1000 (CHR ''x'')) busy_world)))
     = Some [(''task_id'', ''nvm''), (''action'', ''retry_or_skip''),
             (''error'', replicate 200 (CHR ''x''))]"
proof -
  have a: "map_of (tasks (state busy_world)) ''nvm''
      = Some [(''status'', ''in_progress''), (''started'', ''t+++'')]"
    by (simp add: busy_world_def)
  have c: "clock busy_world (ticks busy_world) = ''t+++''"
    by (simp add: busy_world_def demo_world_def demo_clock_def numeral_3_eq_3)
  from fail_task_truncates [OF a, of demo_dumps "replicate 1000 (CHR ''x'')"] a c
  show ?thesis by simp
qed

text \<open>
  C9: on a task without a record, \<^verbatim>\<open>complete_task\<close> and \<^verbatim>\<open>fail_task\<close> raise the
  \<^verbatim>\<open>KeyError\<close> of the task identifier, which is the form the unknown-task error takes
  in the code, and leave the world as it was: the document in memory, the files on disk
  and the clock.
\<close>

theorem unknown_task_raises:
  assumes "map_of (tasks (state w)) tid = None"
  shows "complete_task dumps tid w = (Inl (KeyError tid), w)
       \<and> fail_task dumps tid err w = (Inl (KeyError tid), w)"
  using assms by (simp add: complete_task_def fail_task_def set_task_field_def)

theorem unknown_task_raises_witness:
  "map_of (tasks (state demo_world)) ''ghost'' = None
   \<and> complete_task demo_dumps ''ghost'' demo_world = (Inl (KeyError ''ghost''), demo_world)
   \<and> fail_task demo_dumps ''ghost'' ''boom'' demo_world = (Inl (KeyError ''ghost''), demo_world)"
proof -
  have a: "map_of (tasks (state demo_world)) ''ghost'' = None"
    by (simp add: demo_world_def demo_document_def)
  from unknown_task_raises [OF a, of demo_dumps "''boom''"] a show ?thesis by simp
qed

section \<open>Every mutation is saved\<close>

lemma tmp_file_returns: "path_name sf \<noteq> [] \<Longrightarrow> \<exists>tmp. tmp_file sf = Inr tmp"
  by (simp add: tmp_file_def with_suffix_def Let_def)

lemma tmp_file_named: "tmp_file sf = Inr tmp \<Longrightarrow> path_name sf \<noteq> []"
  by (auto simp: tmp_file_def with_suffix_def Let_def split: if_splits)

lemma save_written:
  assumes "session_file w = Some sf" and "tmp_file sf = Inr tmp"
  shows "\<exists>d1. save dumps w = (Inr (), (touch w)\<lparr>disk := d1\<rparr>)
           \<and> read_file d1 sf = Some (concat (dumps (to_json (state (touch w)))))"
  using assms
    exec_save_program [of "buffer_size w" sf tmp "dumps (to_json (state (touch w)))" "disk w"]
  by (auto simp: save_def Let_def)

lemma save_after:
  assumes "save dumps w1 = (Inr u, w')"
  shows "session_file w1 \<noteq> None \<longrightarrow>
           persisted dumps w' \<and> ticks w' = Suc (ticks w1) \<and> clock w' = clock w1
         \<and> map_of (meta (state w')) ''updated'' = Some (clock w1 (ticks w1))"
proof
  assume "session_file w1 \<noteq> None"
  then obtain sf where sf: "session_file w1 = Some sf" by auto
  from assms sf obtain tmp where tmp: "tmp_file sf = Inr tmp"
    by (cases "tmp_file sf") (auto simp: save_def Let_def)
  from save_written [OF sf tmp, of dumps] assms sf
  show "persisted dumps w' \<and> ticks w' = Suc (ticks w1) \<and> clock w' = clock w1
         \<and> map_of (meta (state w')) ''updated'' = Some (clock w1 (ticks w1))"
    by (auto simp: persisted_def touch_state AList.update_conv')
qed

lemma save_returns:
  assumes "session_file w = Some sf" and "path_name sf \<noteq> []"
  shows "\<exists>w'. save dumps w = (Inr (), w') \<and> session_file w' = Some sf
           \<and> active_dir w' = active_dir w \<and> read_file (disk w') sf \<noteq> None"
proof -
  from tmp_file_returns [OF assms(2)] obtain tmp where "tmp_file sf = Inr tmp" ..
  from save_written [OF assms(1) this, of dumps] assms(1) show ?thesis
    by auto
qed

lemma relocate_after:
  assumes "relocate d w1 = (Inr u, w')"
  shows "persisted dumps w1 \<longrightarrow>
           persisted dumps w' \<and> ticks w' = ticks w1 \<and> clock w' = clock w1
         \<and> meta (state w') = meta (state w1)"
  using assms
  by (auto simp: relocate_def persisted_def rename_def read_file_def Let_def
      split: option.splits sum.splits if_splits)

lemma relocate_returns:
  assumes "session_file w = Some sf" and "read_file (disk w) sf \<noteq> None"
  shows "\<exists>w'. relocate target w = (Inr (), w')"
  using assms by (auto simp: relocate_def rename_def read_file_def Let_def split: option.splits)

lemma set_task_field_frame:
  "set_task_field tid f v w = Inr w' \<Longrightarrow>
     session_file w' = session_file w \<and> ticks w' = ticks w \<and> clock w' = clock w"
  by (auto simp: set_task_field_def split: option.splits)

lemma mutation_saved:
  assumes "session_file w \<noteq> None" and "changes m w" and "perform dumps m w = (Inr (), w')"
  shows "persisted dumps w' \<and> ticks w < ticks w'
       \<and> map_of (meta (state w')) ''updated'' = Some (clock w (ticks w' - 1))"
proof (cases m)
  case (Set_phase ph)
  with assms show ?thesis
    by (auto simp: set_phase_def now_def Let_def dest!: save_after)
next
  case (Record_choice q a v)
  with assms show ?thesis
    by (auto simp: record_choice_def now_def Let_def dest!: save_after)
next
  case (Record_user_data k v)
  with assms show ?thesis
    by (auto simp: record_user_data_def dest!: save_after)
next
  case (Set_plan ids)
  with assms show ?thesis
    by (auto simp: set_plan_def Let_def dest!: save_after)
next
  case (Start_task tid)
  with assms show ?thesis
    by (auto simp: start_task_def now_def Let_def dest!: save_after)
next
  case (Complete_task tid)
  with assms show ?thesis
    by (auto simp: complete_task_def now_def Let_def split: sum.splits
        dest!: set_task_field_frame save_after)
next
  case (Fail_task tid err)
  with assms show ?thesis
    by (auto simp: fail_task_def now_def Let_def split: sum.splits
        dest!: set_task_field_frame save_after)
next
  case (Skip_task tid)
  with assms show ?thesis
    by (auto simp: skip_task_def now_def Let_def dest!: save_after)
next
  case (Log_command_start c l)
  with assms show ?thesis
    by (auto simp: log_command_start_def now_def Let_def split: prod.splits sum.splits
        dest!: save_after)
next
  case (Log_command_end i ok out err)
  with assms show ?thesis
    by (auto simp: log_command_end_def now_def Let_def split: if_splits
        dest!: save_after)
next
  case Complete_session
  with assms show ?thesis
    by (auto simp: complete_session_def now_def Let_def split: prod.splits sum.splits
        dest!: save_after relocate_after [where dumps = dumps])
next
  case (Fail_session reason)
  with assms show ?thesis
    by (auto simp: fail_session_def now_def Let_def split: prod.splits sum.splits if_splits
        dest!: save_after relocate_after [where dumps = dumps])
qed

lemma save_fst:
  assumes "session_file w = Some sf" and "path_name sf \<noteq> []"
  shows "fst (save dumps w) = Inr ()"
  using save_returns [OF assms, of dumps] by auto

lemma mutation_returns:
  assumes "session_file w = Some sf" and "path_name sf \<noteq> []" and "applicable m w"
  shows "fst (perform dumps m w) = Inr ()"
proof (cases m)
  case (Set_phase ph)
  with assms show ?thesis
    by (auto simp: set_phase_def now_def Let_def save_fst)
next
  case (Record_choice q a v)
  with assms show ?thesis
    by (auto simp: record_choice_def now_def Let_def save_fst)
next
  case (Record_user_data k v)
  with assms show ?thesis
    by (auto simp: record_user_data_def save_fst)
next
  case (Set_plan ids)
  with assms show ?thesis
    by (auto simp: set_plan_def Let_def save_fst)
next
  case (Start_task tid)
  with assms show ?thesis
    by (auto simp: start_task_def now_def Let_def save_fst)
next
  case (Complete_task tid)
  with assms show ?thesis
    by (auto simp: complete_task_def set_task_field_def now_def Let_def save_fst
        AList.update_conv')
next
  case (Fail_task tid err)
  with assms show ?thesis
    by (auto simp: fail_task_def set_task_field_def now_def Let_def save_fst
        AList.update_conv')
next
  case (Skip_task tid)
  with assms show ?thesis
    by (auto simp: skip_task_def now_def Let_def save_fst)
next
  case (Log_command_start c l)
  with assms show ?thesis
    by (simp add: log_command_start_def now_def Let_def case_prod_beta save_fst)
next
  case (Log_command_end i ok out err)
  with assms show ?thesis
    by (auto simp: log_command_end_def now_def Let_def save_fst)
next
  case Complete_session
  let ?w = "w\<lparr>state := (state w)\<lparr>meta := AList.update ''status'' ''completed'' (meta (state w))\<rparr>\<rparr>"
  let ?w3 = "(snd (now ?w))\<lparr>state := (state (snd (now ?w)))\<lparr>meta :=
      AList.update ''completed'' (fst (now ?w)) (meta (state (snd (now ?w))))\<rparr>\<rparr>"
  from assms(1) have "session_file ?w3 = Some sf"
    by (simp add: now_def)
  from save_returns [OF this assms(2), of dumps] obtain w' where
    "save dumps ?w3 = (Inr (), w')" "session_file w' = Some sf"
    "read_file (disk w') sf \<noteq> None"
    by auto
  with Complete_session relocate_returns [of w' sf "completed_dir w'"] show ?thesis
    by (auto simp: complete_session_def Let_def case_prod_beta)
next
  case (Fail_session reason)
  let ?w = "w\<lparr>state := (state w)\<lparr>meta := AList.update ''status'' ''failed'' (meta (state w))\<rparr>\<rparr>"
  let ?w3 = "(snd (now ?w))\<lparr>state := (state (snd (now ?w)))\<lparr>meta :=
      AList.update ''failed_at'' (fst (now ?w)) (meta (state (snd (now ?w))))\<rparr>\<rparr>"
  let ?w4 = "if reason \<noteq> []
      then ?w3\<lparr>state := (state ?w3)\<lparr>meta :=
             AList.update ''failure_reason'' (take 500 reason) (meta (state ?w3))\<rparr>\<rparr>
      else ?w3"
  from assms(1) have "session_file ?w4 = Some sf"
    by (simp add: now_def)
  from save_returns [OF this assms(2), of dumps] obtain w' where
    "save dumps ?w4 = (Inr (), w')" "session_file w' = Some sf"
    "read_file (disk w') sf \<noteq> None"
    by auto
  with Fail_session relocate_returns [of w' sf "failed_dir w'"] show ?thesis
    by (auto simp: fail_session_def Let_def case_prod_beta)
qed

text \<open>
  C6: on a handle whose session file is set, a mutating operation (\<^verbatim>\<open>set_phase\<close> on a
  change of phase, \<^verbatim>\<open>log_command_end\<close> on an index below the length of the log) that
  returns has put the serialised in-memory document into the session file, and the
  \<^verbatim>\<open>updated\<close> field of \<^verbatim>\<open>meta\<close> is the last reading of the clock taken by the call.
  And the operation does return, whenever the session file has a name and the operation
  finds what it needs: \<^verbatim>\<open>complete_task\<close> and \<^verbatim>\<open>fail_task\<close> a record of the task,
  \<^verbatim>\<open>log_command_end\<close> an index that is not below the start of the log.
\<close>

theorem mutation_persists:
  assumes "session_file w = Some sf" and "changes m w"
  shows "(\<forall>w'. perform dumps m w = (Inr (), w') \<longrightarrow>
            persisted dumps w' \<and> ticks w < ticks w'
          \<and> map_of (meta (state w')) ''updated'' = Some (clock w (ticks w' - 1)))
       \<and> (path_name sf \<noteq> [] \<and> applicable m w \<longrightarrow>
            (\<exists>w'. perform dumps m w = (Inr (), w')))"
proof -
  have "\<exists>w'. perform dumps m w = (Inr (), w')" if "path_name sf \<noteq> []" "applicable m w"
    using mutation_returns [OF assms(1) that, of dumps]
    by (cases "perform dumps m w") auto
  with mutation_saved [of w m dumps] assms show ?thesis
    by auto
qed

lemma save_session_file: "session_file (snd (save dumps w)) = session_file w"
  by (auto simp: save_def Let_def split: option.splits sum.splits prod.splits)

theorem mutation_persists_witness:
  "session_file demo_world = Some [''sessions'', ''active'', ''prov-demo.json'']
   \<and> changes (Start_task ''nvm'') demo_world
   \<and> path_name [''sessions'', ''active'', ''prov-demo.json''] \<noteq> []
   \<and> applicable (Start_task ''nvm'') demo_world
   \<and> fst (perform demo_dumps (Start_task ''nvm'') demo_world) = Inr ()
   \<and> persisted demo_dumps (snd (perform demo_dumps (Start_task ''nvm'') demo_world))
   \<and> read_file (disk (snd (perform demo_dumps (Start_task ''nvm'') demo_world)))
        [''sessions'', ''active'', ''prov-demo.json'']
       \<noteq> read_file (disk demo_world) [''sessions'', ''active'', ''prov-demo.json'']
   \<and> ticks (snd (perform demo_dumps (Start_task ''nvm'') demo_world)) = 5
   \<and> map_of (meta (state (snd (perform demo_dumps (Start_task ''nvm'') demo_world)))) ''updated''
       = Some ''t++++''"
proof -
  let ?sf = "[''sessions'', ''active'', ''prov-demo.json'']"
  let ?w = "snd (perform demo_dumps (Start_task ''nvm'') demo_world)"
  have a: "session_file demo_world = Some ?sf"
    by (simp add: demo_world_def)
  have b: "changes (Start_task ''nvm'') demo_world" and c: "applicable (Start_task ''nvm'') demo_world"
    by simp_all
  have n: "path_name ?sf \<noteq> []"
    by (simp add: path_name_def)
  note mp = mutation_persists [OF a b, of demo_dumps]
  from mp n c obtain w' where r: "perform demo_dumps (Start_task ''nvm'') demo_world = (Inr (), w')"
    by blast
  with mp have p: "persisted demo_dumps w'" "ticks demo_world < ticks w'"
    "map_of (meta (state w')) ''updated'' = Some (clock demo_world (ticks w' - 1))"
    by blast+
  have t: "ticks ?w = 5"
    by (simp add: start_task_def now_def Let_def save_def demo_world_def case_prod_beta
        split: sum.splits)
  have k: "clock demo_world 4 = ''t++++''"
    by (simp add: demo_world_def demo_clock_def eval_nat_numeral)
  have old: "read_file (disk demo_world) ?sf = Some (concat (demo_dumps (to_json demo_document)))"
    by (simp add: demo_world_def read_file_def)
  have st: "state ?w =
      \<lparr>meta = [(''id'', ''prov-demo''), (''created'', ''t''), (''updated'', ''t++++''),
               (''status'', ''active''), (''version'', ''1.0'')],
       phase = \<lparr>current = ''init'', history = []\<rparr>,
       profile = None,
       choices = [],
       user_data = [],
       tasks = [(''nvm'', [(''status'', ''in_progress''), (''started'', ''t+++'')])],
       plan = [],
       execution = \<lparr>commands = [], current_task = Some ''nvm''\<rparr>,
       resume_point = Some [(''task_id'', ''nvm''), (''action'', ''retry'')],
       expansion_history = []\<rparr>"
    by (simp add: start_task_def now_def Let_def save_state demo_world_def demo_document_def
        demo_clock_def eval_nat_numeral)
  have "take 70 (concat (demo_dumps (to_json (state ?w))))
      \<noteq> take 70 (concat (demo_dumps (to_json demo_document)))"
    unfolding st by (simp add: to_json_def demo_document_def str_dict_def quoted_def)
  then have new: "concat (demo_dumps (to_json (state ?w))) \<noteq> concat (demo_dumps (to_json demo_document))"
    by auto
  have sfw: "session_file ?w = Some ?sf"
    by (simp add: start_task_def now_def Let_def save_session_file demo_world_def)
  from r p t k old new a b c n sfw show ?thesis
    by (simp add: persisted_def)
qed

section \<open>Stopping during a save\<close>

lemma exec_save_program_file:
  "\<exists>d1. exec cap (save_program sf tmp cs) (None, d) = (Inr (), None, d1)
        \<and> names d1 sf = Some (case names d tmp of Some i \<Rightarrow> i | None \<Rightarrow> next_inode d)
        \<and> data d1 (case names d tmp of Some i \<Rightarrow> i | None \<Rightarrow> next_inode d) = concat cs"
  using exec_save_program [of cap sf tmp cs d] by blast

lemma handle_shutdown_state:
  "state (handle_shutdown dumps (w\<lparr>disk := d\<rparr>)) = state (handle_shutdown dumps w)"
  by (simp add: handle_shutdown_def now_def Let_def save_state)

lemma take_save_program:
  assumes "0 < k" and "k \<le> Suc (length cs)"
  shows "take k (save_program sf tmp cs) = Open_w tmp # map Write (take (k - 1) cs)"
  using assms by (cases k) (simp_all add: save_program_def take_map)

lemma length_concat_take: "length (concat (take n xs)) \<le> length (concat xs)"
proof -
  have "concat xs = concat (take n xs) @ concat (drop n xs)"
    by (metis append_take_drop_id concat_append)
  then show ?thesis by (metis le_add1 length_append)
qed

text \<open>
  A signal inside the \<^verbatim>\<open>with\<close> block of an active session whose text fits the buffer:
  the handler saves on the same temporary file and renames it onto the session file;
  the close of the interrupted block then writes its pending text over the start of
  that file.
\<close>

lemma signal_in_with_block:
  assumes sf: "session_file w = Some sf" and tmp: "tmp_file sf = Inr tmp"
    and active: "map_of (meta (state w)) ''status'' = Some ''active''"
    and k: "0 < k" "k \<le> Suc (length (dumps (to_json (state (touch w)))))"
    and small: "length (concat (dumps (to_json (state (touch w))))) < buffer_size w"
  shows "read_file (save_stopped dumps (Signalled k) w) sf =
     Some (overlay (concat (dumps (to_json (state (handle_shutdown dumps (touch w))))))
             0 (concat (take (k - 1) (dumps (to_json (state (touch w)))))))"
proof -
  define cs where "cs = dumps (to_json (state (touch w)))"
  define P where "P = concat (take (k - 1) cs)"
  have kk: "0 < k" "k \<le> Suc (length cs)" and sm: "length (concat cs) < buffer_size w"
    using k small by (simp_all only: cs_def)
  obtain f0 d0 where o: "open_w tmp (disk w) = (f0, d0)"
    by (cases "open_w tmp (disk w)")
  then have f0: "offset f0 = 0" "pending f0 = []" "names d0 tmp = Some (inode f0)"
    by (auto simp: open_w_def split: option.splits)
  have "length (pending f0 @ concat (take (k - 1) cs)) < buffer_size w"
    using sm length_concat_take [of "k - 1" cs] f0 by simp
  from exec_writes_buffered [OF this, of d0] f0 o
  have run: "exec (buffer_size w) (take k (save_program sf tmp cs)) (None, disk w)
      = (Inr (), Some (f0\<lparr>pending := P\<rparr>), d0)"
    by (simp add: take_save_program [OF kk] step_def P_def)
  define w3 where "w3 = (touch w)\<lparr>disk := d0, ticks := Suc (Suc (ticks w)),
      state := (state (touch w))\<lparr>meta := AList.update ''interrupted_at'' (clock w (Suc (ticks w)))
        (AList.update ''status'' ''interrupted'' (meta (state (touch w))))\<rparr>\<rparr>"
  have hs: "handle_shutdown dumps ((touch w)\<lparr>disk := d0\<rparr>) = snd (save dumps w3)"
    using active
    by (simp add: handle_shutdown_def now_def Let_def touch_state AList.update_conv' w3_def)
  have w3: "session_file w3 = Some sf" "disk w3 = d0" "buffer_size w3 = buffer_size w"
    using sf by (simp_all add: w3_def)
  define T2 where "T2 = concat (dumps (to_json (state (touch w3))))"
  from w3 tmp exec_save_program_file [of "buffer_size w" sf tmp "dumps (to_json (state (touch w3)))" d0]
    f0
  obtain d1 where d1: "disk (snd (save dumps w3)) = d1" "names d1 sf = Some (inode f0)"
    "data d1 (inode f0) = T2"
    by (auto simp: save_def Let_def T2_def)
  have "state (snd (save dumps w3)) = state (touch w3)"
    using w3(1) by (simp add: save_state touch_state)
  with hs have "state (handle_shutdown dumps (touch w)) = state (touch w3)"
    using handle_shutdown_state [where dumps = dumps and w = "touch w" and d = d0] by simp
  then have T2': "concat (dumps (to_json (state (handle_shutdown dumps (touch w))))) = T2"
    by (simp only: T2_def)
  have "save_stopped dumps (Signalled k) w = snd (flush (f0\<lparr>pending := P\<rparr>) d1)"
    using sf tmp run hs d1(1)
    by (simp add: save_stopped_def Let_def cs_def [symmetric])
  then have "read_file (save_stopped dumps (Signalled k) w) sf = Some (overlay T2 0 P)"
    using d1 f0 by (simp add: flush_def read_file_def)
  then show ?thesis
    by (simp only: T2' P_def cs_def)
qed

lemmas demo_eval = to_json_def str_dict_def opt_str_def quoted_def demo_world_def
  demo_document_def demo_clock_def eval_nat_numeral

lemma demo_saved_state:
  "state (touch demo_world) = demo_document\<lparr>meta :=
     [(''id'', ''prov-demo''), (''created'', ''t''), (''updated'', ''t+++''),
      (''status'', ''active''), (''version'', ''1.0'')]\<rparr>"
  by (simp add: touch_state demo_world_def demo_document_def demo_clock_def eval_nat_numeral)

lemma demo_interrupted_state:
  "state (handle_shutdown demo_dumps (touch demo_world)) = demo_document\<lparr>meta :=
     [(''id'', ''prov-demo''), (''created'', ''t''), (''updated'', ''t+++++''),
      (''status'', ''interrupted''), (''version'', ''1.0''), (''interrupted_at'', ''t++++'')]\<rparr>"
  by (simp add: handle_shutdown_def now_def Let_def save_state touch_state demo_world_def
      demo_document_def demo_clock_def eval_nat_numeral)

text \<open>
  C1: the save is not atomic when \<^verbatim>\<open>SIGTERM\<close> or \<^verbatim>\<open>SIGINT\<close> ends the process while
  \<^verbatim>\<open>_save\<close> writes. In the example session, with the signal after 29 chunks of the
  document, the process leaves a session file that holds the 122 characters written so
  far followed by the rest of the text that the handler saved. This is not what the file
  held before the save, not the document that was being saved, and not the document that
  the handler saved.
\<close>

theorem signal_during_save_corrupts:
  "read_file (save_stopped demo_dumps (Signalled 30) demo_world)
       [''sessions'', ''active'', ''prov-demo.json'']
     = Some (concat (take 29 (demo_dumps (to_json (state (touch demo_world)))))
             @ drop 122 (concat (demo_dumps (to_json
                 (state (handle_shutdown demo_dumps (touch demo_world)))))))
   \<and> read_file (save_stopped demo_dumps (Signalled 30) demo_world)
       [''sessions'', ''active'', ''prov-demo.json'']
     \<noteq> read_file (disk demo_world) [''sessions'', ''active'', ''prov-demo.json'']
   \<and> read_file (save_stopped demo_dumps (Signalled 30) demo_world)
       [''sessions'', ''active'', ''prov-demo.json'']
     \<noteq> Some (concat (demo_dumps (to_json (state (touch demo_world)))))
   \<and> read_file (save_stopped demo_dumps (Signalled 30) demo_world)
       [''sessions'', ''active'', ''prov-demo.json'']
     \<noteq> Some (concat (demo_dumps (to_json
                 (state (handle_shutdown demo_dumps (touch demo_world))))))"
proof -
  let ?sf = "[''sessions'', ''active'', ''prov-demo.json'']"
  define T1 where "T1 = concat (demo_dumps (to_json (state (touch demo_world))))"
  define T2 where "T2 = concat (demo_dumps (to_json
      (state (handle_shutdown demo_dumps (touch demo_world)))))"
  define P where "P = concat (take 29 (demo_dumps (to_json (state (touch demo_world)))))"
  have a: "session_file demo_world = Some ?sf"
    and b: "map_of (meta (state demo_world)) ''status'' = Some ''active''"
    and c: "buffer_size demo_world = 8192"
    by (simp_all add: demo_world_def demo_document_def)
  have n: "length (demo_dumps (to_json (state (touch demo_world)))) = 77"
    unfolding demo_saved_state by (simp add: demo_eval)
  have m: "length T1 < 8192"
    unfolding T1_def demo_saved_state by (simp add: demo_eval)
  have p: "length P = 122"
    unfolding P_def demo_saved_state by (simp add: demo_eval)
  have "read_file (save_stopped demo_dumps (Signalled 30) demo_world) ?sf
      = Some (overlay T2 0 (concat (take (30 - 1) (demo_dumps (to_json (state (touch demo_world)))))))"
    unfolding T2_def
  proof (rule signal_in_with_block [OF a demo_tmp b])
    show "0 < (30::nat)" by simp
    show "30 \<le> Suc (length (demo_dumps (to_json (state (touch demo_world)))))"
      unfolding n by simp
    show "length (concat (demo_dumps (to_json (state (touch demo_world))))) < buffer_size demo_world"
      unfolding c using m by (simp only: T1_def)
  qed
  then have fin: "read_file (save_stopped demo_dumps (Signalled 30) demo_world) ?sf
      = Some (P @ drop 122 T2)"
    using p by (simp add: overlay_start P_def)
  have old: "read_file (disk demo_world) ?sf = Some (concat (demo_dumps (to_json demo_document)))"
    by (simp add: demo_world_def read_file_def)
  have d1: "take 70 (P @ drop 122 T2) \<noteq> take 70 (concat (demo_dumps (to_json demo_document)))"
    unfolding P_def T2_def demo_saved_state demo_interrupted_state by (simp add: demo_eval)
  have d2: "length (P @ drop 122 T2) \<noteq> length T1"
    unfolding P_def T1_def T2_def demo_saved_state demo_interrupted_state by (simp add: demo_eval)
  have d3: "take 70 (P @ drop 122 T2) \<noteq> take 70 T2"
    unfolding P_def T2_def demo_saved_state demo_interrupted_state by (simp add: demo_eval)
  have "P @ drop 122 T2 \<noteq> concat (demo_dumps (to_json demo_document))"
    by (metis d1)
  moreover have "P @ drop 122 T2 \<noteq> T1"
    by (metis d2)
  moreover have "P @ drop 122 T2 \<noteq> T2"
    by (metis d3)
  ultimately have "P @ drop 122 T2 \<noteq> concat (demo_dumps (to_json demo_document))"
    "P @ drop 122 T2 \<noteq> T1" "P @ drop 122 T2 \<noteq> T2"
    by blast+
  with fin old show ?thesis
    by (simp add: P_def T1_def T2_def)
qed

text \<open>A process killed after the last file action leaves what \<^verbatim>\<open>_save\<close> leaves.\<close>

lemma save_is_last_stop:
  "disk (snd (save dumps w)) =
     save_stopped dumps (Killed (length (dumps (to_json (state (touch w)))) + 3)) w"
  by (auto simp: save_def save_stopped_def save_program_def Let_def
      split: option.splits sum.splits prod.splits)

text \<open>
  A session file whose name ends in \<^verbatim>\<open>.tmp\<close> is its own temporary file: the save opens
  the session file itself for writing, and a process killed then leaves it empty.
\<close>

lemma rfind_tmp: "rfind (stem @ ''.tmp'') (CHR ''.'') = int (length stem)"
  by (simp add: rfind_def)

lemma tmp_file_of_tmp:
  "stem \<noteq> [] \<Longrightarrow> tmp_file (d @ [stem @ ''.tmp'']) = Inr (d @ [stem @ ''.tmp''])"
  by (simp add: tmp_file_def with_suffix_def path_suffix_def path_name_def rfind_tmp Let_def)

lemma killed_on_own_temporary_file:
  assumes "session_file w = Some sf" and "tmp_file sf = Inr sf"
  shows "read_file (save_stopped dumps (Killed 1) w) sf = Some []"
  using assms
  by (auto simp: save_stopped_def save_program_def step_def open_w_def read_file_def Let_def
      split: option.splits)

text \<open>
  A process that is killed outright, on a disk where no file has two names, leaves in a
  session file with another name than its temporary file what was there or the whole
  new text.
\<close>

lemma exec_writes_close_frame:
  assumes "exec cap xs (h, d) = (r, h1, d1)"
    and "\<forall>a \<in> set xs. a = Close \<or> (\<exists>c. a = Write c)"
    and "\<forall>f. h = Some f \<longrightarrow> inode f = i"
  shows "names d1 = names d \<and> (\<forall>j. j \<noteq> i \<longrightarrow> data d1 j = data d j)"
  using assms
proof (induction xs arbitrary: h d)
  case Nil
  then show ?case by simp
next
  case (Cons a xs)
  show ?case
  proof (cases "step cap a (h, d)")
    case (Inl e)
    with Cons.prems(1) show ?thesis by simp
  next
    case (Inr s)
    obtain h0 d0 where s: "s = (h0, d0)" by (cases s)
    from Cons.prems(2) have a: "a = Close \<or> (\<exists>c. a = Write c)" by simp
    with Inr s Cons.prems(3) have
      st: "names d0 = names d" "\<forall>j. j \<noteq> i \<longrightarrow> data d0 j = data d j"
        "\<forall>f. h0 = Some f \<longrightarrow> inode f = i"
      by (auto simp: step_def write_text_def flush_def Let_def split: option.splits if_splits)
    from Cons.prems(1) Inr s have "exec cap xs (h0, d0) = (r, h1, d1)" by simp
    from Cons.IH [OF this _ st(3)] Cons.prems(2) st show ?thesis by simp
  qed
qed

lemma take_two: "n \<le> Suc 0 \<Longrightarrow> take n [a, b] = take n [a]"
  by (cases n) simp_all

lemma killed_keeps_or_replaces:
  assumes sf: "session_file w = Some sf" and tmp: "tmp_file sf = Inr tmp" and ne: "tmp \<noteq> sf"
    and sound: "sound_disk (disk w)"
  shows "read_file (save_stopped dumps (Killed k) w) sf = read_file (disk w) sf
       \<or> read_file (save_stopped dumps (Killed k) w) sf
            = Some (concat (dumps (to_json (state (touch w)))))"
proof -
  define cs where "cs = dumps (to_json (state (touch w)))"
  define prog where "prog = save_program sf tmp cs"
  have stopped: "save_stopped dumps (Killed k) w
      = snd (snd (exec (buffer_size w) (take k prog) (None, disk w)))"
    using sf tmp by (simp add: save_stopped_def Let_def prog_def cs_def)
  consider "k = 0" | "length prog \<le> k" | "0 < k" "k < length prog" by linarith
  then show ?thesis
  proof cases
    case 1
    with stopped show ?thesis by simp
  next
    case 2
    then have "take k prog = prog" by simp
    with stopped exec_save_program [of "buffer_size w" sf tmp cs "disk w"] show ?thesis
      by (auto simp: prog_def cs_def)
  next
    case 3
    obtain f0 d0 where o: "open_w tmp (disk w) = (f0, d0)"
      by (cases "open_w tmp (disk w)")
    let ?i = "inode f0"
    from o have d0: "names d0 = (names (disk w))(tmp \<mapsto> ?i)"
      "\<forall>j. j \<noteq> ?i \<longrightarrow> data d0 j = data (disk w) j"
      "?i = (case names (disk w) tmp of Some i \<Rightarrow> i | None \<Rightarrow> next_inode (disk w))"
      by (auto simp: open_w_def split: option.splits)
    define rest where "rest = take (k - 1) (map Write cs @ [Close])"
    from 3 have tk: "take k prog = Open_w tmp # rest"
      by (cases k) (simp_all add: prog_def save_program_def rest_def take_two)
    have only: "\<forall>a \<in> set rest. a = Close \<or> (\<exists>c. a = Write c)"
      unfolding rest_def by (auto dest!: in_set_takeD)
    obtain r h1 d1 where e: "exec (buffer_size w) rest (Some f0, d0) = (r, h1, d1)"
      by (cases "exec (buffer_size w) rest (Some f0, d0)") auto
    from exec_writes_close_frame [OF e only, of ?i]
    have fr: "names d1 = names d0" "\<forall>j. j \<noteq> ?i \<longrightarrow> data d1 j = data d0 j"
      by simp_all
    from stopped tk o e have res: "save_stopped dumps (Killed k) w = d1"
      by (simp add: step_def)
    have "read_file d1 sf = read_file (disk w) sf"
    proof (cases "names (disk w) sf")
      case None
      with fr d0 ne show ?thesis by (simp add: read_file_def)
    next
      case (Some j)
      with sound ne d0(3) have "j \<noteq> ?i"
        by (auto simp: sound_disk_def split: option.splits)
      with Some fr d0 ne show ?thesis by (simp add: read_file_def)
    qed
    with res show ?thesis by simp
  qed
qed

lemma exec_save_program_buffered:
  assumes "length (concat cs) < cap" and "names d tmp = None" and "tmp \<noteq> sf"
  shows "exec cap (save_program sf tmp cs) (None, d) =
     (Inr (), None,
      d\<lparr>names := (names d)(sf \<mapsto> next_inode d),
        data := (data d)(next_inode d := concat cs),
        next_inode := Suc (next_inode d)\<rparr>)"
  using assms
  by (simp add: save_program_def exec_append step_def open_w_def exec_writes_buffered flush_def
      rename_def overlay_def fun_upd_idem)

text \<open>The example world is the one that \<^verbatim>\<open>create_session\<close> makes on an empty disk.\<close>

lemma create_session_demo:
  "create_session demo_dumps ''prov-demo'' None
     (demo_world\<lparr>session_file := None,
        disk := \<lparr>names = Map.empty, data = (\<lambda>i. []), next_inode = 0\<rparr>, ticks := 0\<rparr>)
   = (Inr ''prov-demo'', demo_world)"
proof -
  have "length (concat (demo_dumps (to_json demo_document))) < 8192"
    by (simp add: demo_eval)
  then show ?thesis
    by (simp add: create_session_def save_def now_def touch_def Let_def demo_tmp
        exec_save_program_buffered demo_world_def demo_document_def [symmetric] demo_clock_def
        eval_nat_numeral)
qed

section \<open>Drift against a session\<close>

lemma session_has_no_completed_tasks_key:
  "to_json d = JObj kvs \<Longrightarrow> map_of kvs ''completed_tasks'' = None"
  by (auto simp: to_json_def)

lemma compare_with_session_ignores_tasks:
  "compare_with_session report (to_json d) =
     Inr \<lparr>added_outside_session =
            set (map (\<lambda>t. JStr (task_id t)) (filter installed (tools report))),
          removed_since_session = {},
          still_installed = {}\<rparr>"
  by (simp add: compare_with_session_def to_json_def)

text \<open>
  C2: \<^verbatim>\<open>compare_with_session\<close> reads the key \<^verbatim>\<open>completed_tasks\<close> of the session
  document. The session state machine writes no such key: it records completion in the
  status of each task under \<^verbatim>\<open>tasks\<close>, which is what \<^verbatim>\<open>get_completed_tasks\<close> reads. So
  for a session with \<^verbatim>\<open>b\<close>, \<^verbatim>\<open>c\<close>, \<^verbatim>\<open>d\<close> completed and a report with \<^verbatim>\<open>a\<close>, \<^verbatim>\<open>b\<close>, \<^verbatim>\<open>c\<close>
  installed, every installed tool counts as added outside the session and nothing as
  removed or still installed.
\<close>

theorem drift_ignores_completed_tasks:
  "get_completed_tasks drift_session = [''b'', ''c'', ''d'']
   \<and> map task_id (filter installed (tools drift_report)) = [''a'', ''b'', ''c'']
   \<and> compare_with_session drift_report (to_json drift_session) =
       Inr \<lparr>added_outside_session = {JStr ''a'', JStr ''b'', JStr ''c''},
            removed_since_session = {},
            still_installed = {}\<rparr>"
  by (simp add: compare_with_session_ignores_tasks get_completed_tasks_def drift_session_def
      drift_report_def found_def done_record_def)

section \<open>Probes that time out or cannot start\<close>

lemma check_tool_missing_command:
  assumes "\<not> truthy (check_command t)"
  shows "\<exists>s. check_tool h tid t quick = Inr s \<and> \<not> installed s
           \<and> error s = Some ''No detection command''"
  using assms by (simp add: check_tool_def Let_def)

lemma check_tool_timeout:
  assumes "check_command t = Some cmd" and "cmd \<noteq> []"
    and "shell_run h cmd 10 = TimeoutExpired"
  shows "\<exists>s. check_tool h tid t quick = Inr s \<and> \<not> installed s \<and> error s = None"
  using assms by (simp add: check_tool_def run_command_def truthy_def Let_def)

lemma check_tool_raised:
  assumes "check_command t = Some cmd" and "cmd \<noteq> []"
    and "shell_run h cmd 10 = Raised msg"
  shows "\<exists>s. check_tool h tid t quick = Inr s \<and> \<not> installed s \<and> error s = None"
  using assms by (simp add: check_tool_def run_command_def truthy_def Let_def)

text \<open>
  C3: a check command that runs out of time makes \<^verbatim>\<open>run_command\<close> return the code
  \<^verbatim>\<open>-1\<close> and the text \<^verbatim>\<open>timeout\<close>. \<^verbatim>\<open>check_tool\<close> keeps the code only: the tool is
  reported as not installed and its \<^verbatim>\<open>error\<close> field stays empty.
\<close>

theorem timed_out_probe_has_no_error:
  "shell_run slow_host ''sleep 60'' 10 = TimeoutExpired
   \<and> run_command slow_host ''sleep 60'' 10 = (- 1, ''timeout'')
   \<and> check_tool slow_host ''slow'' slow_task False =
       Inr \<lparr>task_id = ''slow'', name = ''Slow'', category = ''cli-tools'', installed = False,
            version = None, install_path = None, detection_method = ''sleep 60'',
            error = None\<rparr>"
  by (simp add: check_tool_def run_command_def truthy_def slow_host_def slow_task_def Let_def)

section \<open>Parallel and sequential audits\<close>

lemma get_install_path_error: "get_install_path h t = Inl e \<Longrightarrow> e = IndexError"
  by (auto simp: get_install_path_def Let_def split: if_splits prod.splits)

lemma check_tool_error: "check_tool h tid t quick = Inl e \<Longrightarrow> e = IndexError"
  by (auto simp: check_tool_def Let_def split: if_splits prod.splits sum.splits
      dest: get_install_path_error)

lemma check_tool_key:
  "check_tool h tid t quick = Inr s \<Longrightarrow> (category s, name s) = report_key (tid, t)"
  by (auto simp: check_tool_def report_key_def Let_def
      split: if_splits prod.splits sum.splits option.splits)

lemma gather_all:
  assumes "\<And>x e. f x = Inl e \<Longrightarrow> e = IndexError"
  shows "gather f xs =
     (if \<forall>x \<in> set xs. \<not> isl (f x) then Inr (map (\<lambda>x. projr (f x)) xs) else Inl IndexError)"
proof (induction xs)
  case Nil
  show ?case by simp
next
  case (Cons x xs)
  show ?case
  proof (cases "f x")
    case (Inl e)
    with assms [of x e] show ?thesis by simp
  next
    case (Inr y)
    with Cons.IH show ?thesis by simp
  qed
qed

lemma first_seen_snoc:
  "first_seen (xs @ [x]) = (if x \<in> set xs then first_seen xs else first_seen xs @ [x])"
  by (simp add: first_seen_def)

lemma set_first_seen [simp]: "set (first_seen xs) = set xs"
  by (simp add: first_seen_def)

lemma distinct_first_seen [simp]: "distinct (first_seen xs)"
  by (simp add: first_seen_def)

lemma update_tabulated:
  "AList.update k v (map (\<lambda>c. (c, f c)) ks) =
     (if k \<in> set ks then map (\<lambda>c. (c, (f(k := v)) c)) ks
      else map (\<lambda>c. (c, f c)) ks @ [(k, v)])"
  if "distinct ks"
  using that by (induction ks) auto

lemma tally_of_snoc:
  "tally_of (ts @ [t]) c =
     (if category t = c
      then \<lparr>installed_in = installed_in (tally_of ts c) + (if installed t then 1 else 0),
            total_in = total_in (tally_of ts c) + 1\<rparr>
      else tally_of ts c)"
  by (simp add: tally_of_def)

lemma tally_of_absent:
  "c \<notin> category ` set ts \<Longrightarrow> tally_of ts c = \<lparr>installed_in = 0, total_in = 0\<rparr>"
  by (auto simp: tally_of_def filter_empty_conv)

lemma map_of_tabulated:
  "map_of (map (\<lambda>c. (c, f c)) ks) k = (if k \<in> set ks then Some (f k) else None)"
  by (induction ks) auto

lemma update_tabulated_new:
  "k \<notin> set ks \<Longrightarrow>
     AList.update k v (map (\<lambda>c. (c, f c)) ks @ [(k, v')]) = map (\<lambda>c. (c, f c)) ks @ [(k, v)]"
  by (induction ks) auto

lemma map_of_tabulated_new:
  "k \<notin> set ks \<Longrightarrow> map_of (map (\<lambda>c. (c, f c)) ks @ [(k, v)]) k = Some v"
  by (induction ks) auto

lemma by_category_tabulated:
  "foldl count_tool [] ts =
     map (\<lambda>c. (c, tally_of ts c)) (first_seen (map category ts))"
proof (induction ts rule: rev_induct)
  case Nil
  show ?case by (simp add: first_seen_def)
next
  case (snoc t ts)
  let ?ks = "first_seen (map category ts)"
  let ?c = "category t"
  show ?case
  proof (cases "?c \<in> set (map category ts)")
    case True
    then have "count_tool (map (\<lambda>c. (c, tally_of ts c)) ?ks) t =
        map (\<lambda>c. (c, tally_of (ts @ [t]) c)) ?ks"
      by (auto simp: count_tool_def map_of_tabulated update_tabulated Let_def tally_of_snoc)
    with True snoc.IH show ?thesis
      by (simp add: first_seen_snoc)
  next
    case False
    then have "count_tool (map (\<lambda>c. (c, tally_of ts c)) ?ks) t =
        map (\<lambda>c. (c, tally_of (ts @ [t]) c)) ?ks @ [(?c, tally_of (ts @ [t]) ?c)]"
      by (auto simp: count_tool_def map_of_tabulated update_tabulated Let_def tally_of_snoc
          tally_of_absent update_tabulated_new map_of_tabulated_new simp del: map_of_append)
    with False snoc.IH show ?thesis
      by (simp add: first_seen_snoc)
  qed
qed

lemma filter_length_perm:
  "mset xs = mset ys \<Longrightarrow> length (filter P xs) = length (filter P ys)"
  by (metis mset_filter size_mset)

lemma sorted_perm_equal:
  fixes xs ys :: "'a::linorder list"
  assumes "mset xs = mset ys" and "sorted xs" and "sorted ys"
  shows "xs = ys"
proof -
  have "sort xs = xs"
    using assms(2) by (intro properties_for_sort) simp_all
  moreover have "sort xs = ys"
    using assms(1,3) by (intro properties_for_sort) simp_all
  ultimately show ?thesis by simp
qed

lemma sorted_categories:
  assumes "sorted (map (\<lambda>t. (category t, name t)) ts)"
  shows "sorted (map category ts)"
  using assms by (induction ts) (auto simp: less_eq_prod_def)

lemma summarise_perm:
  assumes "mset a = mset b"
    and "sorted (map (\<lambda>t. (category t, name t)) a)"
    and "sorted (map (\<lambda>t. (category t, name t)) b)"
  shows "summarise a = summarise b"
proof -
  have len: "length a = length b"
    using assms(1) by (rule mset_eq_length)
  have "mset (map category a) = mset (map category b)"
    using assms(1) by (metis mset_map)
  then have cats: "map category a = map category b"
    using assms(2,3) by (intro sorted_perm_equal sorted_categories)
  have "tally_of a c = tally_of b c" for c
    by (simp add: tally_of_def filter_length_perm [OF assms(1)])
  with cats have "foldl count_tool [] a = foldl count_tool [] b"
    by (simp add: by_category_tabulated)
  with len show ?thesis
    by (simp add: summarise_def filter_length_perm [OF assms(1)])
qed

lemma sort_key_perm_distinct:
  assumes "mset xs = mset ys" and "distinct (map k ys)"
  shows "sort_key k xs = sort_key k ys"
proof (rule sort_key_inj_key_eq)
  show "mset xs = mset (sort_key k ys)"
    using assms(1) by simp
  have "set xs = set ys"
    using assms(1) by (rule mset_eq_setD)
  with assms(2) show "inj_on k (set xs)"
    by (simp add: distinct_map)
  show "sorted (map k (sort_key k ys))"
    by simp
qed

text \<open>
  C10: for the same tasks on the same host, whatever the order in which the parallel
  probes finish, the parallel and the sequential audit give the same summary and the
  same tools up to their order; when no two tasks share both category and display name,
  they give the same report. In either mode the tools of the report are sorted by
  category and display name, and the tools that share both stand in the order in which
  their results arrived.
\<close>

theorem audit_modes_agree:
  assumes "mset finished = mset task_items"
  shows "map_sum id summary (run_audit h stamp task_items quick True finished)
           = map_sum id summary (run_audit h stamp task_items quick False finished)
       \<and> map_sum id (\<lambda>r. mset (tools r)) (run_audit h stamp task_items quick True finished)
           = map_sum id (\<lambda>r. mset (tools r)) (run_audit h stamp task_items quick False finished)
       \<and> (distinct (map report_key task_items) \<longrightarrow>
            run_audit h stamp task_items quick True finished
              = run_audit h stamp task_items quick False finished)
       \<and> (\<forall>parallel results.
            gather (\<lambda>(tid, t). check_tool h tid t quick)
              (if parallel \<and> \<not> quick then finished else task_items) = Inr results \<longrightarrow>
            (\<exists>r. run_audit h stamp task_items quick parallel finished = Inr r
               \<and> sorted (map (\<lambda>t. (category t, name t)) (tools r))
               \<and> (\<forall>key. filter (\<lambda>t. (category t, name t) = key) (tools r)
                          = filter (\<lambda>t. (category t, name t) = key) results)))"
proof -
  have stable: "\<exists>r. run_audit h stamp task_items quick parallel finished = Inr r
       \<and> sorted (map (\<lambda>t. (category t, name t)) (tools r))
       \<and> (\<forall>key. filter (\<lambda>t. (category t, name t) = key) (tools r)
                  = filter (\<lambda>t. (category t, name t) = key) results)"
    if "gather (\<lambda>(tid, t). check_tool h tid t quick)
          (if parallel \<and> \<not> quick then finished else task_items) = Inr results"
    for parallel results
  proof -
    let ?k = "\<lambda>t::ToolStatus. (category t, name t)"
    have r: "run_audit h stamp task_items quick parallel finished =
        Inr \<lparr>timestamp = stamp, system = get_system_info h, tools = sort_key ?k results,
             summary = summarise (sort_key ?k results), drift = None\<rparr>"
      using that by (simp add: run_audit_def Let_def)
    have "filter (\<lambda>t. ?k t = key) (sort_key ?k results) = filter (\<lambda>t. ?k t = key) results"
      for key
      by (rule sort_key_stable)
    moreover have "sorted (map ?k (sort_key ?k results))"
      by (rule sorted_sort_key)
    ultimately show ?thesis
      unfolding r by (intro exI [of _ "\<lparr>timestamp = stamp, system = get_system_info h,
        tools = sort_key ?k results, summary = summarise (sort_key ?k results), drift = None\<rparr>"])
        (simp del: split_paired_All)
  qed
  have agree: "map_sum id summary (run_audit h stamp task_items quick True finished)
           = map_sum id summary (run_audit h stamp task_items quick False finished)
       \<and> map_sum id (\<lambda>r. mset (tools r)) (run_audit h stamp task_items quick True finished)
           = map_sum id (\<lambda>r. mset (tools r)) (run_audit h stamp task_items quick False finished)
       \<and> (distinct (map report_key task_items) \<longrightarrow>
            run_audit h stamp task_items quick True finished
              = run_audit h stamp task_items quick False finished)"
  proof (cases quick)
  case True
  then show ?thesis by (simp add: run_audit_def)
next
  case False
  define f where "f = (\<lambda>(tid, t). check_tool h tid t quick)"
  define k where "k = (\<lambda>t::ToolStatus. (category t, name t))"
  have err: "\<And>x e. f x = Inl e \<Longrightarrow> e = IndexError"
    by (auto simp: f_def dest: check_tool_error)
  have sets: "set finished = set task_items"
    using assms by (rule mset_eq_setD)
  show ?thesis
  proof (cases "\<forall>x \<in> set task_items. \<not> isl (f x)")
    case ok: True
    let ?xs = "map (\<lambda>x. projr (f x)) finished"
    let ?ys = "map (\<lambda>x. projr (f x)) task_items"
    have par: "gather f finished = Inr ?xs" and seq: "gather f task_items = Inr ?ys"
      using ok sets by (simp_all add: gather_all [of f, OF err])
    have perm: "mset ?xs = mset ?ys"
      by (metis assms mset_map)
    have mset_eq: "mset (sort_key k ?xs) = mset (sort_key k ?ys)"
      using perm by (simp only: mset_sort)
    have sum_eq: "summarise (sort_key k ?xs) = summarise (sort_key k ?ys)"
      using mset_eq unfolding k_def by (rule summarise_perm) (simp_all only: sorted_sort_key)
    have "k (projr (f x)) = report_key x" if "x \<in> set task_items" for x
    proof -
      from ok that obtain s where s: "f x = Inr s"
        by (cases "f x") auto
      then have "check_tool h (fst x) (snd x) quick = Inr s"
        by (simp add: f_def case_prod_beta)
      from check_tool_key [OF this] s show ?thesis
        by (simp add: k_def)
    qed
    then have keys: "map k ?ys = map report_key task_items"
      by simp
    have tools_eq: "sort_key k ?xs = sort_key k ?ys" if "distinct (map report_key task_items)"
    proof -
      from that have "distinct (map k ?ys)"
        by (simp only: keys)
      then show ?thesis
        by (rule sort_key_perm_distinct [OF perm])
    qed
    have rp: "run_audit h stamp task_items quick True finished =
        Inr \<lparr>timestamp = stamp, system = get_system_info h, tools = sort_key k ?xs,
             summary = summarise (sort_key k ?xs), drift = None\<rparr>"
      unfolding run_audit_def f_def [symmetric] k_def [symmetric]
      using False par by (simp add: Let_def)
    have rs: "run_audit h stamp task_items quick False finished =
        Inr \<lparr>timestamp = stamp, system = get_system_info h, tools = sort_key k ?ys,
             summary = summarise (sort_key k ?ys), drift = None\<rparr>"
      unfolding run_audit_def f_def [symmetric] k_def [symmetric]
      using seq by (simp add: Let_def)
    show ?thesis
      unfolding rp rs using sum_eq mset_eq tools_eq by simp
  next
    case bad: False
    with sets have "gather f finished = Inl IndexError" and "gather f task_items = Inl IndexError"
      by (simp_all add: gather_all [of f, OF err])
    then show ?thesis
      unfolding run_audit_def f_def [symmetric] by simp
  qed
qed
  from agree stable show ?thesis
    by blast
qed

text \<open>
  C10, as stated, fails for two tasks of one category with the same display name: the
  sort is stable, so the two keep the order in which their results arrived, and a
  parallel audit in which the second probe finishes first lists them the other way
  round.
\<close>

theorem tied_names_counterexample:
  "mset (rev tie_tasks) = mset tie_tasks
   \<and> map_sum id (map task_id \<circ> tools)
         (run_audit tie_host ''t'' tie_tasks False True (rev tie_tasks))
       = Inr [''code-insiders'', ''code'']
   \<and> map_sum id (map task_id \<circ> tools)
         (run_audit tie_host ''t'' tie_tasks False False (rev tie_tasks))
       = Inr [''code'', ''code-insiders'']
   \<and> run_audit tie_host ''t'' tie_tasks False True (rev tie_tasks)
       \<noteq> run_audit tie_host ''t'' tie_tasks False False (rev tie_tasks)"
proof -
  have a: "check_tool tie_host ''code'' (probe_task ''Code'' ''true'') False =
      Inr \<lparr>task_id = ''code'', name = ''Code'', category = ''editors'', installed = True,
           version = None, install_path = None, detection_method = ''true'', error = None\<rparr>"
    by (simp add: check_tool_def probe_task_def tie_host_def run_command_def truthy_def
        get_version_def get_install_path_def contains_def split_def startswith_def strip_def
        Let_def)
  have b: "check_tool tie_host ''code-insiders'' (probe_task ''Code'' ''false'') False =
      Inr \<lparr>task_id = ''code-insiders'', name = ''Code'', category = ''editors'',
           installed = False, version = None, install_path = None,
           detection_method = ''false'', error = None\<rparr>"
    by (simp add: check_tool_def probe_task_def tie_host_def run_command_def truthy_def
        strip_def Let_def)
  have p: "map_sum id (map task_id \<circ> tools)
         (run_audit tie_host ''t'' tie_tasks False True (rev tie_tasks))
       = Inr [''code-insiders'', ''code'']"
    by (simp add: run_audit_def tie_tasks_def a b Let_def)
  have q: "map_sum id (map task_id \<circ> tools)
         (run_audit tie_host ''t'' tie_tasks False False (rev tie_tasks))
       = Inr [''code'', ''code-insiders'']"
    by (simp add: run_audit_def tie_tasks_def a b Let_def)
  from p q have "run_audit tie_host ''t'' tie_tasks False True (rev tie_tasks)
       \<noteq> run_audit tie_host ''t'' tie_tasks False False (rev tie_tasks)"
    by auto
  with p q show ?thesis by simp
qed

theorem audit_modes_agree_witness:
  "mset (rev plain_tasks) = mset plain_tasks
   \<and> distinct (map report_key plain_tasks)
   \<and> run_audit tie_host ''t'' plain_tasks False True (rev plain_tasks)
       = run_audit tie_host ''t'' plain_tasks False False (rev plain_tasks)
   \<and> map_sum id summary (run_audit tie_host ''t'' tie_tasks False True (rev tie_tasks))
       = map_sum id summary (run_audit tie_host ''t'' tie_tasks False False (rev tie_tasks))
   \<and> map_sum id (map task_id) (gather (\<lambda>(tid, t). check_tool tie_host tid t False)
         (if True \<and> \<not> False then rev tie_tasks else tie_tasks))
       = Inr [''code-insiders'', ''code'']
   \<and> (\<exists>r. run_audit tie_host ''t'' tie_tasks False True (rev tie_tasks) = Inr r
          \<and> sorted (map (\<lambda>t. (category t, name t)) (tools r))
          \<and> map task_id (filter (\<lambda>t. (category t, name t) = (''editors'', ''Code'')) (tools r))
              = [''code-insiders'', ''code''])"
proof -
  have a: "mset (rev plain_tasks) = mset plain_tasks"
    by simp
  have b: "distinct (map report_key plain_tasks)"
    by (simp add: plain_tasks_def report_key_def probe_task_def)
  have c: "mset (rev tie_tasks) = mset tie_tasks"
    by simp
  have x: "check_tool tie_host ''code'' (probe_task ''Code'' ''true'') False =
      Inr \<lparr>task_id = ''code'', name = ''Code'', category = ''editors'', installed = True,
           version = None, install_path = None, detection_method = ''true'', error = None\<rparr>"
    by (simp add: check_tool_def probe_task_def tie_host_def run_command_def truthy_def
        get_version_def get_install_path_def contains_def split_def startswith_def strip_def
        Let_def)
  have y: "check_tool tie_host ''code-insiders'' (probe_task ''Code'' ''false'') False =
      Inr \<lparr>task_id = ''code-insiders'', name = ''Code'', category = ''editors'',
           installed = False, version = None, install_path = None,
           detection_method = ''false'', error = None\<rparr>"
    by (simp add: check_tool_def probe_task_def tie_host_def run_command_def truthy_def
        strip_def Let_def)
  let ?results = "[\<lparr>task_id = ''code-insiders'', name = ''Code'', category = ''editors'',
           installed = False, version = None, install_path = None,
           detection_method = ''false'', error = None\<rparr>,
      \<lparr>task_id = ''code'', name = ''Code'', category = ''editors'', installed = True,
           version = None, install_path = None, detection_method = ''true'', error = None\<rparr>]"
  have g: "gather (\<lambda>(tid, t). check_tool tie_host tid t False)
         (if True \<and> \<not> False then rev tie_tasks else tie_tasks) = Inr ?results"
    by (simp add: tie_tasks_def x y)
  note agree = audit_modes_agree [OF c, of tie_host "''t''" False]
  from agree g obtain r where r: "run_audit tie_host ''t'' tie_tasks False True (rev tie_tasks) = Inr r"
    "sorted (map (\<lambda>t. (category t, name t)) (tools r))"
    "\<forall>key. filter (\<lambda>t. (category t, name t) = key) (tools r)
        = filter (\<lambda>t. (category t, name t) = key) ?results"
    by blast
  from r(3) have "filter (\<lambda>t. (category t, name t) = (''editors'', ''Code'')) (tools r) = ?results"
    by simp
  then have f: "map task_id (filter (\<lambda>t. (category t, name t) = (''editors'', ''Code'')) (tools r))
      = [''code-insiders'', ''code'']"
    by simp
  have "map_sum id (map task_id) (gather (\<lambda>(tid, t). check_tool tie_host tid t False)
         (if True \<and> \<not> False then rev tie_tasks else tie_tasks))
       = Inr [''code-insiders'', ''code'']"
    unfolding g by simp
  with audit_modes_agree [OF a, of tie_host "''t''" False] agree a b r(1,2) f
  show ?thesis by auto
qed

end
